theory Spec2Isabelle
  imports Main "HOL-Library.Monad_Syntax" "HOL-Library.Multiset"
begin

section \<open>The half-edge mesh of the convex hull engine\<close>

text \<open>
  The development follows \<^verbatim>\<open>src/common/src/Polyhedron_ConvexHull.h\<close>.  Objects live in
  heaps indexed by addresses; a pointer that may be \<^verbatim>\<open>NULL\<close> is an \<open>option\<close>.
  Every operation returns an \<open>option\<close>: \<open>None\<close> stands for a failed \<^verbatim>\<open>assert\<close>, for the
  dereference of a null or freed pointer, or for a loop that used up its fuel.
\<close>

type_synonym vid = nat
type_synonym hid = nat
type_synonym eid = nat
type_synonym fid = nat

datatype PointStatus = PSAbove | PSBelow | PSInside

record 'p Vertex =
  v_position :: 'p
  v_leaving :: "hid option"

record HalfEdge =
  h_origin :: vid
  h_edge :: "eid option"
  h_face :: "fid option"
  h_next :: hid
  h_previous :: hid

record Edge =
  e_first :: hid
  e_second :: "hid option"

record HalfEdgeList =
  l_head :: "hid option"
  l_size :: nat

record Face =
  f_boundary :: HalfEdgeList

record 'p BBox =
  bb_min :: 'p
  bb_max :: 'p

datatype Event = FaceWasCreated fid | FaceWillBeDeleted fid

record 'p Mesh =
  vertexHeap :: "vid \<Rightarrow> 'p Vertex option"
  halfEdgeHeap :: "hid \<Rightarrow> HalfEdge option"
  edgeHeap :: "eid \<Rightarrow> Edge option"
  faceHeap :: "fid \<Rightarrow> Face option"
  m_vertices :: "vid list"
  m_edges :: "eid list"
  m_faces :: "fid list"
  m_bounds :: "'p BBox"
  nextId :: nat

text \<open>
  The \<^verbatim>\<open>Callback&\<close> every mutating operation takes is modelled by the trace of its
  invocations, each with the mesh as the callback can observe it at that moment.
\<close>

record 'p Polyhedron = "'p Mesh" +
  callbackTrace :: "(Event \<times> 'p Mesh) list"

subsection \<open>Vertices, half-edges, edges\<close>

text \<open>
  Modelled from the spec: the classes \<^verbatim>\<open>Vertex\<close>, \<^verbatim>\<open>HalfEdge\<close>, \<^verbatim>\<open>Edge\<close>, \<^verbatim>\<open>Face\<close> and the
  intrusive lists are declared outside the file at hand.  An edge is a pair of mutually
  opposite half-edges, of which the second may be unset; its first vertex is the origin of
  its first half-edge, its second vertex the origin of the second half-edge or, while that
  is unset, the destination of the first.
\<close>

definition firstVertex :: "'p Polyhedron \<Rightarrow> eid \<Rightarrow> vid option" where
  "firstVertex st e = do {
     ed \<leftarrow> edgeHeap st e;
     h \<leftarrow> halfEdgeHeap st (e_first ed);
     Some (h_origin h)
   }"

definition secondVertex :: "'p Polyhedron \<Rightarrow> eid \<Rightarrow> vid option" where
  "secondVertex st e = do {
     ed \<leftarrow> edgeHeap st e;
     (case e_second ed of
        Some h2 \<Rightarrow> do { h \<leftarrow> halfEdgeHeap st h2; Some (h_origin h) }
      | None \<Rightarrow> do {
          h1 \<leftarrow> halfEdgeHeap st (e_first ed);
          hn \<leftarrow> halfEdgeHeap st (h_next h1);
          Some (h_origin hn)
        })
   }"

subsection \<open>Seam\<close>

type_synonym Seam = "eid list"

definition checkEdge :: "'p Polyhedron \<Rightarrow> Seam \<Rightarrow> eid \<Rightarrow> bool option" where
  "checkEdge st seam e =
     (if seam = [] then Some True
      else do {
        a \<leftarrow> firstVertex st (last seam);
        b \<leftarrow> secondVertex st e;
        Some (a = b)
      })"

definition push_back :: "'p Polyhedron \<Rightarrow> Seam \<Rightarrow> eid option \<Rightarrow> Seam option" where
  "push_back st seam edge =
     (case edge of
        None \<Rightarrow> None
      | Some e \<Rightarrow> do {
          ok \<leftarrow> checkEdge st seam e;
          if ok then Some (seam @ [e]) else None
        })"

fun checkEdges_loop :: "'p Polyhedron \<Rightarrow> eid \<Rightarrow> eid list \<Rightarrow> bool option" where
  "checkEdges_loop st lst [] = Some True"
| "checkEdges_loop st lst (e # es) = do {
     a \<leftarrow> firstVertex st lst;
     b \<leftarrow> secondVertex st e;
     if a \<noteq> b then Some False else checkEdges_loop st e es
   }"

definition checkEdges :: "'p Polyhedron \<Rightarrow> Seam \<Rightarrow> bool option" where
  "checkEdges st seam =
     (if \<not> 2 < length seam then None
      else checkEdges_loop st (last seam) seam)"

definition shift :: "'p Polyhedron \<Rightarrow> Seam \<Rightarrow> Seam option" where
  "shift st seam =
     (if seam = [] then None
      else do {
        let seam' = tl seam @ [hd seam];
        ok \<leftarrow> checkEdges st seam';
        if ok then Some seam' else None
      })"

function shift_while ::
  "(Seam \<Rightarrow> bool option) \<Rightarrow> 'p Polyhedron \<Rightarrow> nat \<Rightarrow> Seam \<Rightarrow> (bool \<times> Seam) option" where
  "shift_while criterion st i seam =
     (if i < length seam then do {
        c \<leftarrow> criterion seam;
        if c then Some (True, seam)
        else do {
          seam' \<leftarrow> shift st seam;
          shift_while criterion st (Suc i) seam'
        }
      }
      else Some (False, seam))"
  by pat_completeness auto

lemma shift_length: "shift st seam = Some seam' \<Longrightarrow> length seam' = length seam"
  by (auto simp: shift_def Let_def split: if_splits bind_splits)

termination shift_while
  by (relation "measure (\<lambda>(c, st, i, seam). length seam - i)")
     (auto dest: shift_length)

definition shift_criterion ::
  "(Seam \<Rightarrow> bool option) \<Rightarrow> 'p Polyhedron \<Rightarrow> Seam \<Rightarrow> (bool \<times> Seam) option" where
  "shift_criterion criterion st seam = shift_while criterion st 0 seam"

definition replace :: "'p Polyhedron \<Rightarrow> Seam \<Rightarrow> nat \<Rightarrow> eid \<Rightarrow> Seam option" where
  "replace st seam n replacement = do {
     let seam' = drop n seam @ [replacement];
     ok \<leftarrow> checkEdges st seam';
     if ok then Some seam' else None
   }"

subsection \<open>Objects and their mutators\<close>

text \<open>
  Modelled from the spec: the constructors and mutators of \<^verbatim>\<open>Vertex\<close>, \<^verbatim>\<open>HalfEdge\<close>, \<^verbatim>\<open>Edge\<close>
  and \<^verbatim>\<open>Face\<close>, and the cyclic intrusive list that holds a face's boundary.  A vertex holds
  a position and one leaving half-edge; a new half-edge is linked to itself and becomes the
  leaving half-edge of its origin; an edge records itself in the half-edges it is given; a
  face takes over a boundary list of at least three half-edges and records itself in them.
\<close>

definition position :: "'p Polyhedron \<Rightarrow> vid \<Rightarrow> 'p option" where
  "position st v = map_option v_position (vertexHeap st v)"

definition setLeaving :: "'p Polyhedron \<Rightarrow> vid \<Rightarrow> hid option \<Rightarrow> 'p Polyhedron option" where
  "setLeaving st v l = do {
     vr \<leftarrow> vertexHeap st v;
     Some (st\<lparr>vertexHeap := (vertexHeap st)(v \<mapsto> vr\<lparr>v_leaving := l\<rparr>)\<rparr>)
   }"

definition setPosition :: "'p Polyhedron \<Rightarrow> vid \<Rightarrow> 'p \<Rightarrow> 'p Polyhedron option" where
  "setPosition st v p = do {
     vr \<leftarrow> vertexHeap st v;
     Some (st\<lparr>vertexHeap := (vertexHeap st)(v \<mapsto> vr\<lparr>v_position := p\<rparr>)\<rparr>)
   }"

definition setEdge :: "'p Polyhedron \<Rightarrow> hid \<Rightarrow> eid option \<Rightarrow> 'p Polyhedron option" where
  "setEdge st h e = do {
     hr \<leftarrow> halfEdgeHeap st h;
     Some (st\<lparr>halfEdgeHeap := (halfEdgeHeap st)(h \<mapsto> hr\<lparr>h_edge := e\<rparr>)\<rparr>)
   }"

definition unsetEdge :: "'p Polyhedron \<Rightarrow> hid \<Rightarrow> 'p Polyhedron option" where
  "unsetEdge st h = setEdge st h None"

definition setFace :: "'p Polyhedron \<Rightarrow> hid \<Rightarrow> fid option \<Rightarrow> 'p Polyhedron option" where
  "setFace st h f = do {
     hr \<leftarrow> halfEdgeHeap st h;
     Some (st\<lparr>halfEdgeHeap := (halfEdgeHeap st)(h \<mapsto> hr\<lparr>h_face := f\<rparr>)\<rparr>)
   }"

definition setNext :: "'p Polyhedron \<Rightarrow> hid \<Rightarrow> hid \<Rightarrow> 'p Polyhedron option" where
  "setNext st h n = do {
     hr \<leftarrow> halfEdgeHeap st h;
     Some (st\<lparr>halfEdgeHeap := (halfEdgeHeap st)(h \<mapsto> hr\<lparr>h_next := n\<rparr>)\<rparr>)
   }"

definition setPrevious :: "'p Polyhedron \<Rightarrow> hid \<Rightarrow> hid \<Rightarrow> 'p Polyhedron option" where
  "setPrevious st h n = do {
     hr \<leftarrow> halfEdgeHeap st h;
     Some (st\<lparr>halfEdgeHeap := (halfEdgeHeap st)(h \<mapsto> hr\<lparr>h_previous := n\<rparr>)\<rparr>)
   }"

definition newVertex :: "'p Polyhedron \<Rightarrow> 'p \<Rightarrow> vid \<times> 'p Polyhedron" where
  "newVertex st p =
     (let v = nextId st in
      (v, st\<lparr>vertexHeap := (vertexHeap st)(v \<mapsto> \<lparr>v_position = p, v_leaving = None\<rparr>),
             nextId := v + 1\<rparr>))"

definition newHalfEdge :: "'p Polyhedron \<Rightarrow> vid \<Rightarrow> (hid \<times> 'p Polyhedron) option" where
  "newHalfEdge st origin =
     (let h = nextId st;
          st1 = st\<lparr>halfEdgeHeap := (halfEdgeHeap st)(h \<mapsto>
                   \<lparr>h_origin = origin, h_edge = None, h_face = None,
                    h_next = h, h_previous = h\<rparr>),
                 nextId := h + 1\<rparr>
      in do {
        st2 \<leftarrow> setLeaving st1 origin (Some h);
        Some (h, st2)
      })"

definition newEdge :: "'p Polyhedron \<Rightarrow> hid \<Rightarrow> hid option \<Rightarrow> (eid \<times> 'p Polyhedron) option" where
  "newEdge st h1 h2 =
     (let e = nextId st;
          st1 = st\<lparr>edgeHeap := (edgeHeap st)(e \<mapsto> \<lparr>e_first = h1, e_second = h2\<rparr>),
                 nextId := e + 1\<rparr>
      in do {
        st2 \<leftarrow> setEdge st1 h1 (Some e);
        st3 \<leftarrow> (case h2 of None \<Rightarrow> Some st2 | Some h \<Rightarrow> setEdge st2 h (Some e));
        Some (e, st3)
      })"

definition emptyList :: HalfEdgeList where
  "emptyList = \<lparr>l_head = None, l_size = 0\<rparr>"

definition listAppend ::
  "'p Polyhedron \<Rightarrow> HalfEdgeList \<Rightarrow> hid \<Rightarrow> ('p Polyhedron \<times> HalfEdgeList) option" where
  "listAppend st l h =
     (case l_head l of
        None \<Rightarrow> Some (st, \<lparr>l_head = Some h, l_size = 1\<rparr>)
      | Some front \<Rightarrow> do {
          fr \<leftarrow> halfEdgeHeap st front;
          let back = h_previous fr;
          st1 \<leftarrow> setNext st back h;
          st2 \<leftarrow> setPrevious st1 h back;
          st3 \<leftarrow> setNext st2 h front;
          st4 \<leftarrow> setPrevious st3 front h;
          Some (st4, l\<lparr>l_size := l_size l + 1\<rparr>)
        })"

fun cycle :: "'p Polyhedron \<Rightarrow> nat \<Rightarrow> hid \<Rightarrow> hid list option" where
  "cycle st 0 h = Some []"
| "cycle st (Suc n) h = do {
     hr \<leftarrow> halfEdgeHeap st h;
     rest \<leftarrow> cycle st n (h_next hr);
     Some (h # rest)
   }"

definition listItems :: "'p Polyhedron \<Rightarrow> HalfEdgeList \<Rightarrow> hid list option" where
  "listItems st l =
     (case l_head l of None \<Rightarrow> Some [] | Some h \<Rightarrow> cycle st (l_size l) h)"

fun setFaces :: "'p Polyhedron \<Rightarrow> fid option \<Rightarrow> hid list \<Rightarrow> 'p Polyhedron option" where
  "setFaces st f [] = Some st"
| "setFaces st f (h # hs) = do { st1 \<leftarrow> setFace st h f; setFaces st1 f hs }"

definition newFace :: "'p Polyhedron \<Rightarrow> HalfEdgeList \<Rightarrow> (fid \<times> 'p Polyhedron) option" where
  "newFace st l =
     (if l_size l < 3 then None
      else do {
        hs \<leftarrow> listItems st l;
        let f = nextId st;
        let st1 = st\<lparr>faceHeap := (faceHeap st)(f \<mapsto> \<lparr>f_boundary = l\<rparr>), nextId := f + 1\<rparr>;
        st2 \<leftarrow> setFaces st1 (Some f) hs;
        Some (f, st2)
      })"

definition boundaryHalfEdges :: "'p Polyhedron \<Rightarrow> fid \<Rightarrow> hid list option" where
  "boundaryHalfEdges st f = do {
     fr \<leftarrow> faceHeap st f;
     listItems st (f_boundary fr)
   }"

definition originPosition :: "'p Polyhedron \<Rightarrow> hid \<Rightarrow> 'p option" where
  "originPosition st h = do {
     hr \<leftarrow> halfEdgeHeap st h;
     position st (h_origin hr)
   }"

definition getVertexPositions :: "'p Polyhedron \<Rightarrow> fid \<Rightarrow> 'p list option" where
  "getVertexPositions st f = do {
     hs \<leftarrow> boundaryHalfEdges st f;
     those (map (originPosition st) hs)
   }"

text \<open>Destroying a face frees the half-edges of its boundary with it.\<close>

fun freeAll :: "(nat \<Rightarrow> 'a option) \<Rightarrow> nat list \<Rightarrow> (nat \<Rightarrow> 'a option)" where
  "freeAll heap [] = heap"
| "freeAll heap (x # xs) = freeAll (heap(x := None)) xs"

definition deleteFace :: "'p Polyhedron \<Rightarrow> fid \<Rightarrow> 'p Polyhedron option" where
  "deleteFace st f = do {
     hs \<leftarrow> boundaryHalfEdges st f;
     Some (st\<lparr>halfEdgeHeap := freeAll (halfEdgeHeap st) hs,
             faceHeap := (faceHeap st)(f := None)\<rparr>)
   }"

definition deleteEdge :: "'p Polyhedron \<Rightarrow> eid \<Rightarrow> 'p Polyhedron option" where
  "deleteEdge st e = do {
     ed \<leftarrow> edgeHeap st e;
     Some (st\<lparr>edgeHeap := (edgeHeap st)(e := None)\<rparr>)
   }"

definition deleteVertices :: "'p Polyhedron \<Rightarrow> vid list \<Rightarrow> 'p Polyhedron" where
  "deleteVertices st vs = st\<lparr>vertexHeap := freeAll (vertexHeap st) vs\<rparr>"

text \<open>Reversing a boundary swaps the two links of each of its half-edges.\<close>

fun reverseLinks :: "'p Polyhedron \<Rightarrow> hid list \<Rightarrow> 'p Polyhedron option" where
  "reverseLinks st [] = Some st"
| "reverseLinks st (h # hs) = do {
     hr \<leftarrow> halfEdgeHeap st h;
     let st1 = st\<lparr>halfEdgeHeap := (halfEdgeHeap st)(h \<mapsto>
                  hr\<lparr>h_next := h_previous hr, h_previous := h_next hr\<rparr>)\<rparr>;
     reverseLinks st1 hs
   }"

definition flipFace :: "'p Polyhedron \<Rightarrow> fid \<Rightarrow> 'p Polyhedron option" where
  "flipFace st f = do {
     hs \<leftarrow> boundaryHalfEdges st f;
     reverseLinks st hs
   }"

subsection \<open>Edge operations\<close>

text \<open>
  Modelled from the spec: the methods of \<^verbatim>\<open>Edge\<close> and \<^verbatim>\<open>HalfEdge\<close> the surgery calls.
  Flipping an edge swaps the labels of its two half-edges; the twin of a half-edge is the
  other half-edge of its edge.
\<close>

definition fullySpecified :: "'p Polyhedron \<Rightarrow> eid \<Rightarrow> bool option" where
  "fullySpecified st e = do { ed \<leftarrow> edgeHeap st e; Some (e_second ed \<noteq> None) }"

definition firstEdge :: "'p Polyhedron \<Rightarrow> eid \<Rightarrow> hid option" where
  "firstEdge st e = map_option e_first (edgeHeap st e)"

definition secondEdge :: "'p Polyhedron \<Rightarrow> eid \<Rightarrow> hid option" where
  "secondEdge st e = do { ed \<leftarrow> edgeHeap st e; e_second ed }"

definition twin :: "'p Polyhedron \<Rightarrow> eid \<Rightarrow> hid \<Rightarrow> hid option" where
  "twin st e h = do {
     ed \<leftarrow> edgeHeap st e;
     if h = e_first ed then e_second ed
     else if e_second ed = Some h then Some (e_first ed)
     else None
   }"

definition twinOf :: "'p Polyhedron \<Rightarrow> hid \<Rightarrow> hid option" where
  "twinOf st h = do {
     hr \<leftarrow> halfEdgeHeap st h;
     e \<leftarrow> h_edge hr;
     twin st e h
   }"

definition flip :: "'p Polyhedron \<Rightarrow> eid \<Rightarrow> 'p Polyhedron option" where
  "flip st e = do {
     ed \<leftarrow> edgeHeap st e;
     s \<leftarrow> e_second ed;
     Some (st\<lparr>edgeHeap := (edgeHeap st)(e \<mapsto> \<lparr>e_first = s, e_second = Some (e_first ed)\<rparr>)\<rparr>)
   }"

definition makeSecondEdge :: "'p Polyhedron \<Rightarrow> eid \<Rightarrow> hid \<Rightarrow> 'p Polyhedron option" where
  "makeSecondEdge st e h = do {
     ed \<leftarrow> edgeHeap st e;
     if e_second ed = Some h then Some st
     else if h = e_first ed then flip st e
     else None
   }"

definition setFirstAsLeaving :: "'p Polyhedron \<Rightarrow> eid \<Rightarrow> 'p Polyhedron option" where
  "setFirstAsLeaving st e = do {
     ed \<leftarrow> edgeHeap st e;
     hr \<leftarrow> halfEdgeHeap st (e_first ed);
     setLeaving st (h_origin hr) (Some (e_first ed))
   }"

definition unsetSecondEdge :: "'p Polyhedron \<Rightarrow> eid \<Rightarrow> 'p Polyhedron option" where
  "unsetSecondEdge st e = do {
     ed \<leftarrow> edgeHeap st e;
     s \<leftarrow> e_second ed;
     st1 \<leftarrow> unsetEdge st s;
     Some (st1\<lparr>edgeHeap := (edgeHeap st1)(e \<mapsto> ed\<lparr>e_second := None\<rparr>)\<rparr>)
   }"

definition setSecondEdge :: "'p Polyhedron \<Rightarrow> eid \<Rightarrow> hid \<Rightarrow> 'p Polyhedron option" where
  "setSecondEdge st e h = do {
     ed \<leftarrow> edgeHeap st e;
     hr \<leftarrow> halfEdgeHeap st h;
     if e_second ed \<noteq> None \<or> h_edge hr \<noteq> None then None
     else do {
       st1 \<leftarrow> setEdge st h (Some e);
       Some (st1\<lparr>edgeHeap := (edgeHeap st1)(e \<mapsto> ed\<lparr>e_second := Some h\<rparr>)\<rparr>)
     }
   }"

definition nextIncident :: "'p Polyhedron \<Rightarrow> hid \<Rightarrow> hid option" where
  "nextIncident st h = do {
     t \<leftarrow> twinOf st h;
     tr \<leftarrow> halfEdgeHeap st t;
     Some (h_next tr)
   }"

subsection \<open>Geometry and queries declared elsewhere\<close>

text \<open>
  The vector, plane and bounding box primitives, the two-dimensional hull helper and
  \<^verbatim>\<open>checkInvariant\<close> are not part of the file at hand.  They are parameters of the model, so
  that every result holds for whatever they compute (exact or epsilon-based, and for
  any number type \<^verbatim>\<open>T\<close>).  \<open>setPlanePoints a b c\<close> tells whether the three points span a
  plane, \<open>planePointStatus a b c q\<close> classifies \<open>q\<close> against that plane, and
  \<open>facePointStatus ps q\<close> classifies \<open>q\<close> against the plane of a face whose boundary
  vertices have the positions \<open>ps\<close>.
\<close>

record 'p Geometry =
  linearlyDependent :: "'p \<Rightarrow> 'p \<Rightarrow> 'p \<Rightarrow> bool"
  containedWithinSegment :: "'p \<Rightarrow> 'p \<Rightarrow> 'p \<Rightarrow> bool"
  mergeWith :: "'p BBox \<Rightarrow> 'p \<Rightarrow> 'p BBox"
  setPlanePoints :: "'p \<Rightarrow> 'p \<Rightarrow> 'p \<Rightarrow> bool"
  planePointStatus :: "'p \<Rightarrow> 'p \<Rightarrow> 'p \<Rightarrow> 'p \<Rightarrow> PointStatus"
  facePointStatus :: "'p list \<Rightarrow> 'p \<Rightarrow> PointStatus"
  polygonContainsPoint :: "'p \<Rightarrow> 'p list \<Rightarrow> bool"
  convexHull2D :: "'p list \<Rightarrow> 'p list"
  checkInvariant :: "'p Mesh \<Rightarrow> bool"

text \<open>
  Modelled from the spec: the shape states (empty: no vertices; point: one vertex and
  nothing else; edge: two vertices and one edge; polygon: at least three vertices and one
  face; polyhedron: at least four vertices and four faces), the containment query (a
  point is contained when it is on or inside every face plane), the vertex lookup by
  position, \<^verbatim>\<open>clear\<close> and \<^verbatim>\<open>updateBounds\<close> (the bounding box recomputed from scratch).
\<close>

definition vertexCount :: "'p Polyhedron \<Rightarrow> nat" where
  "vertexCount st = length (m_vertices st)"

definition faceCount :: "'p Polyhedron \<Rightarrow> nat" where
  "faceCount st = length (m_faces st)"

definition empty :: "'p Polyhedron \<Rightarrow> bool" where
  "empty st = (vertexCount st = 0)"

definition point :: "'p Polyhedron \<Rightarrow> bool" where
  "point st = (vertexCount st = 1 \<and> m_edges st = [] \<and> m_faces st = [])"

definition edge :: "'p Polyhedron \<Rightarrow> bool" where
  "edge st = (vertexCount st = 2 \<and> length (m_edges st) = 1 \<and> m_faces st = [])"

definition polygon :: "'p Polyhedron \<Rightarrow> bool" where
  "polygon st = (3 \<le> vertexCount st \<and> faceCount st = 1)"

definition polyhedron :: "'p Polyhedron \<Rightarrow> bool" where
  "polyhedron st = (4 \<le> vertexCount st \<and> 4 \<le> faceCount st)"

definition pointStatus :: "'p Geometry \<Rightarrow> 'p Polyhedron \<Rightarrow> fid \<Rightarrow> 'p \<Rightarrow> PointStatus option" where
  "pointStatus G st f p = do {
     ps \<leftarrow> getVertexPositions st f;
     Some (facePointStatus G ps p)
   }"

fun contains_loop :: "'p Geometry \<Rightarrow> 'p Polyhedron \<Rightarrow> 'p \<Rightarrow> fid list \<Rightarrow> bool option" where
  "contains_loop G st p [] = Some True"
| "contains_loop G st p (f # fs) = do {
     s \<leftarrow> pointStatus G st f p;
     if s = PSAbove then Some False else contains_loop G st p fs
   }"

definition contains :: "'p Geometry \<Rightarrow> 'p Polyhedron \<Rightarrow> 'p \<Rightarrow> bool option" where
  "contains G st p = contains_loop G st p (m_faces st)"

definition vertexPositions :: "'p Polyhedron \<Rightarrow> 'p list option" where
  "vertexPositions st = those (map (position st) (m_vertices st))"

fun findVertexByPosition_loop :: "'p Polyhedron \<Rightarrow> 'p \<Rightarrow> vid list \<Rightarrow> vid option option" where
  "findVertexByPosition_loop st p [] = Some None"
| "findVertexByPosition_loop st p (v # vs) = do {
     q \<leftarrow> position st v;
     if q = p then Some (Some v) else findVertexByPosition_loop st p vs
   }"

definition findVertexByPosition :: "'p Polyhedron \<Rightarrow> 'p \<Rightarrow> vid option option" where
  "findVertexByPosition st p = findVertexByPosition_loop st p (m_vertices st)"

definition clear :: "'p Polyhedron \<Rightarrow> 'p Polyhedron" where
  "clear st = st\<lparr>vertexHeap := (\<lambda>_. None), halfEdgeHeap := (\<lambda>_. None),
                 edgeHeap := (\<lambda>_. None), faceHeap := (\<lambda>_. None),
                 m_vertices := [], m_edges := [], m_faces := []\<rparr>"

definition updateBounds :: "'p Geometry \<Rightarrow> 'p Polyhedron \<Rightarrow> 'p Polyhedron option" where
  "updateBounds G st = do {
     ps \<leftarrow> vertexPositions st;
     (case ps of
        [] \<Rightarrow> Some st
      | p # qs \<Rightarrow> Some (st\<lparr>m_bounds := foldl (mergeWith G) \<lparr>bb_min = p, bb_max = p\<rparr> qs\<rparr>))
   }"

definition invokeCallback :: "Event \<Rightarrow> 'p Polyhedron \<Rightarrow> 'p Polyhedron" where
  "invokeCallback ev st = st\<lparr>callbackTrace := callbackTrace st @ [(ev, Mesh.truncate st)]\<rparr>"

subsection \<open>Splitting criteria and seam construction\<close>

text \<open>
  The virtual \<^verbatim>\<open>doMatches\<close> of a \<^verbatim>\<open>SplittingCriterion\<close> is a function of the mesh and a face.
\<close>

type_synonym 'p SplittingCriterion = "'p Polyhedron \<Rightarrow> fid \<Rightarrow> bool option"

datatype MatchResult =
  MatchResult_First | MatchResult_Second | MatchResult_Both | MatchResult_Neither

definition firstFace :: "'p Polyhedron \<Rightarrow> eid \<Rightarrow> fid option" where
  "firstFace st e = do {
     ed \<leftarrow> edgeHeap st e;
     h \<leftarrow> halfEdgeHeap st (e_first ed);
     h_face h
   }"

definition secondFace :: "'p Polyhedron \<Rightarrow> eid \<Rightarrow> fid option" where
  "secondFace st e = do {
     ed \<leftarrow> edgeHeap st e;
     h2 \<leftarrow> e_second ed;
     h \<leftarrow> halfEdgeHeap st h2;
     h_face h
   }"

definition matches :: "'p SplittingCriterion \<Rightarrow> 'p Polyhedron \<Rightarrow> eid \<Rightarrow> MatchResult option" where
  "matches criterion st e = do {
     f1 \<leftarrow> firstFace st e;
     firstResult \<leftarrow> criterion st f1;
     f2 \<leftarrow> secondFace st e;
     secondResult \<leftarrow> criterion st f2;
     Some (if firstResult then (if secondResult then MatchResult_Both else MatchResult_First)
           else if secondResult then MatchResult_Second
           else MatchResult_Neither)
   }"

fun findFirstSplittingEdge ::
  "'p SplittingCriterion \<Rightarrow> 'p Polyhedron \<Rightarrow> eid list \<Rightarrow> (eid option \<times> 'p Polyhedron) option" where
  "findFirstSplittingEdge criterion st [] = Some (None, st)"
| "findFirstSplittingEdge criterion st (e # es) = do {
     result \<leftarrow> matches criterion st e;
     (case result of
        MatchResult_Second \<Rightarrow> do { st1 \<leftarrow> flip st e; Some (Some e, st1) }
      | MatchResult_First \<Rightarrow> Some (Some e, st)
      | MatchResult_Both \<Rightarrow> findFirstSplittingEdge criterion st es
      | MatchResult_Neither \<Rightarrow> findFirstSplittingEdge criterion st es)
   }"

definition nextCandidate :: "'p Polyhedron \<Rightarrow> hid \<Rightarrow> (hid \<times> eid) option" where
  "nextCandidate st h = do {
     hr \<leftarrow> halfEdgeHeap st h;
     let halfEdge = h_previous hr;
     pr \<leftarrow> halfEdgeHeap st halfEdge;
     next \<leftarrow> h_edge pr;
     Some (halfEdge, next)
   }"

fun findNextSplittingEdge_loop ::
  "'p SplittingCriterion \<Rightarrow> nat \<Rightarrow> 'p Polyhedron \<Rightarrow> eid \<Rightarrow> hid \<Rightarrow> eid \<Rightarrow> MatchResult \<Rightarrow>
   (eid option \<times> 'p Polyhedron) option" where
  "findNextSplittingEdge_loop criterion fuel st lst halfEdge next result =
     (if result \<noteq> MatchResult_First \<and> result \<noteq> MatchResult_Second \<and> next \<noteq> lst then
        (case fuel of
           0 \<Rightarrow> None
         | Suc n \<Rightarrow> do {
             t \<leftarrow> twinOf st halfEdge;
             (halfEdge', next') \<leftarrow> nextCandidate st t;
             result' \<leftarrow> matches criterion st next';
             findNextSplittingEdge_loop criterion n st lst halfEdge' next' result'
           })
      else if result \<noteq> MatchResult_First \<and> result \<noteq> MatchResult_Second then Some (None, st)
      else if result = MatchResult_Second then do { st1 \<leftarrow> flip st next; Some (Some next, st1) }
      else Some (Some next, st))"

definition findNextSplittingEdge ::
  "'p SplittingCriterion \<Rightarrow> nat \<Rightarrow> 'p Polyhedron \<Rightarrow> eid \<Rightarrow> (eid option \<times> 'p Polyhedron) option" where
  "findNextSplittingEdge criterion fuel st lst = do {
     h1 \<leftarrow> firstEdge st lst;
     (halfEdge, next) \<leftarrow> nextCandidate st h1;
     result \<leftarrow> matches criterion st next;
     findNextSplittingEdge_loop criterion fuel st lst halfEdge next result
   }"

fun createSeam_loop ::
  "'p SplittingCriterion \<Rightarrow> nat \<Rightarrow> 'p Polyhedron \<Rightarrow> eid \<Rightarrow> eid option \<Rightarrow> Seam \<Rightarrow>
   (Seam \<times> 'p Polyhedron) option" where
  "createSeam_loop criterion 0 st first current seam = None"
| "createSeam_loop criterion (Suc n) st first current seam = do {
     seam1 \<leftarrow> push_back st seam current;
     c \<leftarrow> current;
     (current', st1) \<leftarrow> findNextSplittingEdge criterion n st c;
     if current' \<noteq> Some first then createSeam_loop criterion n st1 first current' seam1
     else Some (seam1, st1)
   }"

definition createSeam ::
  "'p SplittingCriterion \<Rightarrow> nat \<Rightarrow> 'p Polyhedron \<Rightarrow> (Seam \<times> 'p Polyhedron) option" where
  "createSeam criterion fuel st = do {
     (first, st1) \<leftarrow> findFirstSplittingEdge criterion st (m_edges st);
     (case first of
        None \<Rightarrow> Some ([], st1)
      | Some f \<Rightarrow> createSeam_loop criterion fuel st1 f (Some f) [])
   }"

fun incident_loop :: "nat \<Rightarrow> 'p Polyhedron \<Rightarrow> hid \<Rightarrow> hid \<Rightarrow> fid \<Rightarrow> bool option" where
  "incident_loop 0 st leaving curEdge f = None"
| "incident_loop (Suc n) st leaving curEdge f = do {
     cr \<leftarrow> halfEdgeHeap st curEdge;
     if h_face cr = Some f then Some True
     else do {
       curEdge' \<leftarrow> nextIncident st curEdge;
       if curEdge' \<noteq> leaving then incident_loop n st leaving curEdge' f else Some False
     }
   }"

definition incident :: "nat \<Rightarrow> 'p Polyhedron \<Rightarrow> vid \<Rightarrow> fid \<Rightarrow> bool option" where
  "incident fuel st v f = do {
     vr \<leftarrow> vertexHeap st v;
     l \<leftarrow> v_leaving vr;
     incident_loop fuel st l l f
   }"

definition SplitByConnectivityCriterion :: "nat \<Rightarrow> vid \<Rightarrow> 'p SplittingCriterion" where
  "SplitByConnectivityCriterion fuel vertex st f = map_option Not (incident fuel st vertex f)"

definition SplitByVisibilityCriterion :: "'p Geometry \<Rightarrow> 'p \<Rightarrow> 'p SplittingCriterion" where
  "SplitByVisibilityCriterion G p st f = do {
     s \<leftarrow> pointStatus G st f p;
     Some (s = PSBelow)
   }"

subsection \<open>Split\<close>

definition deleteFaces_edge :: "'p Polyhedron \<Rightarrow> eid \<Rightarrow> hid \<Rightarrow> 'p Polyhedron option" where
  "deleteFaces_edge st e current = do {
     fs \<leftarrow> fullySpecified st e;
     if fs then do {
       st1 \<leftarrow> makeSecondEdge st e current;
       unsetSecondEdge st1 e
     }
     else do {
       st1 \<leftarrow> unsetEdge st current;
       deleteEdge (st1\<lparr>m_edges := removeAll e (m_edges st1)\<rparr>) e
     }
   }"

definition deleteFaces_vertex ::
  "'p Polyhedron \<Rightarrow> hid \<Rightarrow> vid list \<Rightarrow> ('p Polyhedron \<times> vid list) option" where
  "deleteFaces_vertex st current verticesToDelete = do {
     cr \<leftarrow> halfEdgeHeap st current;
     let origin = h_origin cr;
     vr \<leftarrow> vertexHeap st origin;
     if v_leaving vr = Some current
     then Some (st\<lparr>m_vertices := removeAll origin (m_vertices st)\<rparr>, verticesToDelete @ [origin])
     else Some (st, verticesToDelete)
   }"

fun deleteFaces ::
  "nat \<Rightarrow> hid \<Rightarrow> 'p Polyhedron \<times> fid set \<times> vid list \<Rightarrow>
   ('p Polyhedron \<times> fid set \<times> vid list) option"
and deleteFaces_loop ::
  "nat \<Rightarrow> hid \<Rightarrow> hid \<Rightarrow> 'p Polyhedron \<times> fid set \<times> vid list \<Rightarrow>
   ('p Polyhedron \<times> fid set \<times> vid list) option" where
  "deleteFaces 0 first s = None"
| "deleteFaces (Suc n) first (st, visitedFaces, verticesToDelete) = do {
     fr \<leftarrow> halfEdgeHeap st first;
     face \<leftarrow> h_face fr;
     if face \<in> visitedFaces then Some (st, visitedFaces, verticesToDelete)
     else do {
       (st1, visitedFaces1, verticesToDelete1) \<leftarrow>
         deleteFaces_loop n first first (st, insert face visitedFaces, verticesToDelete);
       let st2 = invokeCallback (FaceWillBeDeleted face) st1;
       st3 \<leftarrow> deleteFace (st2\<lparr>m_faces := removeAll face (m_faces st2)\<rparr>) face;
       Some (st3, visitedFaces1, verticesToDelete1)
     }
   }"
| "deleteFaces_loop 0 first current s = None"
| "deleteFaces_loop (Suc n) first current (st, visitedFaces, verticesToDelete) = do {
     cr \<leftarrow> halfEdgeHeap st current;
     (st2, visitedFaces2, verticesToDelete2) \<leftarrow>
       (case h_edge cr of
          None \<Rightarrow> Some (st, visitedFaces, verticesToDelete)
        | Some e \<Rightarrow> do {
            fs \<leftarrow> fullySpecified st e;
            (st1, visitedFaces1, verticesToDelete1) \<leftarrow>
              (if fs then do {
                 t \<leftarrow> twin st e current;
                 deleteFaces n t (st, visitedFaces, verticesToDelete)
               }
               else Some (st, visitedFaces, verticesToDelete));
            st2 \<leftarrow> deleteFaces_edge st1 e current;
            Some (st2, visitedFaces1, verticesToDelete1)
          });
     (st3, verticesToDelete3) \<leftarrow> deleteFaces_vertex st2 current verticesToDelete2;
     cr3 \<leftarrow> halfEdgeHeap st3 current;
     if h_next cr3 \<noteq> first
     then deleteFaces_loop n first (h_next cr3) (st3, visitedFaces2, verticesToDelete3)
     else Some (st3, visitedFaces2, verticesToDelete3)
   }"

fun split_unset :: "'p Polyhedron \<Rightarrow> eid list \<Rightarrow> 'p Polyhedron option" where
  "split_unset st [] = Some st"
| "split_unset st (e # es) = do {
     st1 \<leftarrow> setFirstAsLeaving st e;
     st2 \<leftarrow> unsetSecondEdge st1 e;
     split_unset st2 es
   }"

definition split :: "nat \<Rightarrow> 'p Polyhedron \<Rightarrow> Seam \<Rightarrow> 'p Polyhedron option" where
  "split fuel st seam =
     (if length seam < 3 then None
      else do {
        first \<leftarrow> secondEdge st (hd seam);
        st1 \<leftarrow> split_unset st seam;
        (st2, faceSet, verticesToDelete) \<leftarrow> deleteFaces fuel first (st1, {}, []);
        Some (deleteVertices st2 verticesToDelete)
      })"

subsection \<open>Sealing\<close>

fun checkRemainingPoints_loop ::
  "'p Geometry \<Rightarrow> 'p \<times> 'p \<times> 'p \<Rightarrow> 'p Polyhedron \<Rightarrow> eid list \<Rightarrow> bool option" where
  "checkRemainingPoints_loop G plane st [] = Some True"
| "checkRemainingPoints_loop G (a, b, c) st (e # es) = do {
     v \<leftarrow> firstVertex st e;
     p \<leftarrow> position st v;
     if planePointStatus G a b c p = PSAbove then Some False
     else checkRemainingPoints_loop G (a, b, c) st es
   }"

definition checkRemainingPoints ::
  "'p Geometry \<Rightarrow> 'p \<times> 'p \<times> 'p \<Rightarrow> 'p Polyhedron \<Rightarrow> Seam \<Rightarrow> bool option" where
  "checkRemainingPoints G plane st seam =
     (if length seam < 5 then Some True
      else checkRemainingPoints_loop G plane st (butlast (drop 2 seam)))"

definition ShiftSeamForSealing :: "'p Geometry \<Rightarrow> 'p Polyhedron \<Rightarrow> Seam \<Rightarrow> bool option" where
  "ShiftSeamForSealing G st seam =
     (if length seam < 2 then None
      else do {
        v1 \<leftarrow> firstVertex st (hd seam);
        v2 \<leftarrow> secondVertex st (hd seam);
        v3 \<leftarrow> firstVertex st (seam ! 1);
        p1 \<leftarrow> position st v1;
        p2 \<leftarrow> position st v2;
        p3 \<leftarrow> position st v3;
        if \<not> setPlanePoints G p1 p2 p3 then None
        else do {
          v4 \<leftarrow> secondVertex st (last seam);
          p4 \<leftarrow> position st v4;
          if planePointStatus G p1 p2 p3 p4 \<noteq> PSBelow then Some False
          else checkRemainingPoints G (p1, p2, p3) st seam
        }
      })"

fun sealWithSinglePolygon_loop ::
  "'p Polyhedron \<Rightarrow> HalfEdgeList \<Rightarrow> eid list \<Rightarrow> ('p Polyhedron \<times> HalfEdgeList) option" where
  "sealWithSinglePolygon_loop st boundary [] = Some (st, boundary)"
| "sealWithSinglePolygon_loop st boundary (currentEdge # es) = do {
     fs \<leftarrow> fullySpecified st currentEdge;
     if fs then None
     else do {
       origin \<leftarrow> secondVertex st currentEdge;
       (boundaryEdge, st1) \<leftarrow> newHalfEdge st origin;
       (st2, boundary1) \<leftarrow> listAppend st1 boundary boundaryEdge;
       st3 \<leftarrow> setSecondEdge st2 currentEdge boundaryEdge;
       sealWithSinglePolygon_loop st3 boundary1 es
     }
   }"

definition addFace :: "'p Polyhedron \<Rightarrow> HalfEdgeList \<Rightarrow> 'p Polyhedron option" where
  "addFace st boundary = do {
     (face, st1) \<leftarrow> newFace st boundary;
     let st2 = invokeCallback (FaceWasCreated face) st1;
     Some (st2\<lparr>m_faces := m_faces st2 @ [face]\<rparr>)
   }"

definition sealWithSinglePolygon :: "'p Polyhedron \<Rightarrow> Seam \<Rightarrow> 'p Polyhedron option" where
  "sealWithSinglePolygon st seam =
     (if length seam < 3 then None
      else do {
        (st1, boundary) \<leftarrow> sealWithSinglePolygon_loop st emptyList seam;
        addFace st1 boundary
      })"

fun sealWithMultiplePolygons_more ::
  "'p Geometry \<Rightarrow> 'p \<times> 'p \<times> 'p \<Rightarrow> 'p Polyhedron \<Rightarrow> HalfEdgeList \<Rightarrow> vid \<Rightarrow> eid list \<Rightarrow>
   ('p Polyhedron \<times> HalfEdgeList \<times> vid \<times> eid list) option" where
  "sealWithMultiplePolygons_more G plane st boundary lastVertex [] =
     Some (st, boundary, lastVertex, [])"
| "sealWithMultiplePolygons_more G (a, b, c) st boundary lastVertex (curEdge # es) = do {
     v \<leftarrow> firstVertex st curEdge;
     p \<leftarrow> position st v;
     if planePointStatus G a b c p = PSInside then do {
       origin \<leftarrow> secondVertex st curEdge;
       (curBoundaryEdge, st1) \<leftarrow> newHalfEdge st origin;
       (st2, boundary1) \<leftarrow> listAppend st1 boundary curBoundaryEdge;
       st3 \<leftarrow> setSecondEdge st2 curEdge curBoundaryEdge;
       lastVertex1 \<leftarrow> firstVertex st3 curEdge;
       sealWithMultiplePolygons_more G (a, b, c) st3 boundary1 lastVertex1 es
     }
     else Some (st, boundary, lastVertex, curEdge # es)
   }"

lemma sealWithMultiplePolygons_more_length:
  "sealWithMultiplePolygons_more G plane st boundary lv es = Some (st', boundary', lv', es') \<Longrightarrow>
   length es' \<le> length es"
proof (induction es arbitrary: st boundary lv)
  case Nil
  then show ?case by simp
next
  case (Cons e es)
  obtain a b c where plane: "plane = (a, b, c)" by (cases plane) auto
  show ?case
  proof (cases "es' = e # es")
    case True
    then show ?thesis by simp
  next
    case False
    with Cons.prems obtain st3 b1 lv1 where
      "sealWithMultiplePolygons_more G plane st3 b1 lv1 es = Some (st', boundary', lv', es')"
      unfolding plane by (auto split: bind_splits if_splits)
    from Cons.IH[OF this] show ?thesis by simp
  qed
qed

definition sealWithMultiplePolygons_close ::
  "'p Polyhedron \<Rightarrow> Seam \<Rightarrow> HalfEdgeList \<Rightarrow> vid \<Rightarrow> eid list \<Rightarrow>
   ('p Polyhedron \<times> HalfEdgeList \<times> Seam) option" where
  "sealWithMultiplePolygons_close st seam boundary lastVertex rest =
     (if rest \<noteq> [] then do {
        (lastBoundaryEdge, st1) \<leftarrow> newHalfEdge st lastVertex;
        (st2, boundary1) \<leftarrow> listAppend st1 boundary lastBoundaryEdge;
        (newE, st3) \<leftarrow> newEdge st2 lastBoundaryEdge None;
        let st4 = st3\<lparr>m_edges := m_edges st3 @ [newE]\<rparr>;
        seam1 \<leftarrow> replace st4 seam (length seam - length rest) newE;
        Some (st4, boundary1, seam1)
      }
      else Some (st, boundary, []))"

lemma sealWithMultiplePolygons_close_length:
  "sealWithMultiplePolygons_close st seam boundary lv rest = Some (st', boundary', seam') \<Longrightarrow>
   length seam' \<le> Suc (length rest)"
proof -
  have "length seam - (length seam - length rest) \<le> length rest" by arith
  moreover assume
    "sealWithMultiplePolygons_close st seam boundary lv rest = Some (st', boundary', seam')"
  ultimately show ?thesis
    by (auto simp: sealWithMultiplePolygons_close_def replace_def Let_def
             split: bind_splits if_splits)
qed

function sealWithMultiplePolygons_loop ::
  "'p Geometry \<Rightarrow> 'p Polyhedron \<Rightarrow> Seam \<Rightarrow> 'p Polyhedron option" where
  "sealWithMultiplePolygons_loop G st seam =
     (if seam = [] then Some st
      else if length seam < 3 then None
      else do {
        let firstEdge = hd seam;
        let secondEdge = hd (tl seam);
        o1 \<leftarrow> secondVertex st firstEdge;
        (firstBoundaryEdge, st1) \<leftarrow> newHalfEdge st o1;
        o2 \<leftarrow> secondVertex st1 secondEdge;
        (secondBoundaryEdge, st2) \<leftarrow> newHalfEdge st1 o2;
        (st3, boundary1) \<leftarrow> listAppend st2 emptyList firstBoundaryEdge;
        (st4, boundary2) \<leftarrow> listAppend st3 boundary1 secondBoundaryEdge;
        st5 \<leftarrow> setSecondEdge st4 firstEdge firstBoundaryEdge;
        st6 \<leftarrow> setSecondEdge st5 secondEdge secondBoundaryEdge;
        v1 \<leftarrow> firstVertex st6 firstEdge;
        v2 \<leftarrow> secondVertex st6 firstEdge;
        v3 \<leftarrow> firstVertex st6 secondEdge;
        p1 \<leftarrow> position st6 v1;
        p2 \<leftarrow> position st6 v2;
        p3 \<leftarrow> position st6 v3;
        if \<not> setPlanePoints G p1 p2 p3 then None
        else do {
          (st7, boundary3, lastVertex, rest) \<leftarrow>
            sealWithMultiplePolygons_more G (p1, p2, p3) st6 boundary2 v3 (tl (tl seam));
          (st8, boundary4, seam1) \<leftarrow>
            sealWithMultiplePolygons_close st7 seam boundary3 lastVertex rest;
          st9 \<leftarrow> addFace st8 boundary4;
          sealWithMultiplePolygons_loop G st9 seam1
        }
      })"
  by pat_completeness auto

termination sealWithMultiplePolygons_loop
proof (relation "measure (\<lambda>(G, st, seam). length seam)", goal_cases)
  case 1
  show ?case by simp
next
  case (2 G st seam firstEdge secondEdge o1 r1 fb st1 o2 r2 sb st2 r3 st3 b1 r4 st4 b2 st5 st6
          v1 v2 v3 p1 p2 p3 r5 st7 r6 b3 r7 lv rest r8 st8 r9 b4 seam1 st9)
  from 2 have more:
    "sealWithMultiplePolygons_more G (p1, p2, p3) st6 b2 v3 (tl (tl seam)) = Some (st7, b3, lv, rest)"
    by simp
  from 2 have close: "sealWithMultiplePolygons_close st7 seam b3 lv rest = Some (st8, b4, seam1)"
    by simp
  from 2 have len: "3 \<le> length seam" by simp
  from sealWithMultiplePolygons_more_length[OF more] sealWithMultiplePolygons_close_length[OF close] len
  show ?case by simp
qed

definition sealWithMultiplePolygons ::
  "'p Geometry \<Rightarrow> 'p Polyhedron \<Rightarrow> Seam \<Rightarrow> 'p Polyhedron option" where
  "sealWithMultiplePolygons G st seam =
     (if length seam < 3 then None
      else if length seam = 3 then sealWithSinglePolygon st seam
      else do {
        (shifted, seam1) \<leftarrow> shift_criterion (ShiftSeamForSealing G st) st seam;
        sealWithMultiplePolygons_loop G st seam1
      })"

subsection \<open>Weaving\<close>

definition ShiftSeamForWeaving ::
  "'p Geometry \<Rightarrow> 'p Polyhedron \<Rightarrow> 'p \<Rightarrow> Seam \<Rightarrow> bool option" where
  "ShiftSeamForWeaving G st m_position seam =
     (if seam = [] then None
      else do {
        v1 \<leftarrow> firstVertex st (last seam);
        v2 \<leftarrow> secondVertex st (last seam);
        v3 \<leftarrow> firstVertex st (hd seam);
        if v3 = v1 \<or> v3 = v2 then None
        else do {
          p1 \<leftarrow> position st v1;
          p2 \<leftarrow> position st v2;
          p3 \<leftarrow> position st v3;
          if \<not> setPlanePoints G m_position p1 p2 then None
          else (let status = planePointStatus G m_position p1 p2 p3
                in if status = PSAbove then None else Some (status = PSBelow))
        }
      })"

fun weave_more ::
  "'p Geometry \<Rightarrow> 'p \<times> 'p \<times> 'p \<Rightarrow> 'p Polyhedron \<Rightarrow> hid \<Rightarrow> HalfEdgeList \<Rightarrow> eid list \<Rightarrow>
   ('p Polyhedron \<times> hid \<times> HalfEdgeList \<times> eid list) option" where
  "weave_more G plane st h boundary [] = Some (st, h, boundary, [])"
| "weave_more G (a, b, c) st h boundary (next # es) = do {
     fv \<leftarrow> firstVertex st next;
     p \<leftarrow> position st fv;
     if planePointStatus G a b c p = PSInside then do {
       st1 \<leftarrow> setSecondEdge st next h;
       v \<leftarrow> firstVertex st1 next;
       (h', st2) \<leftarrow> newHalfEdge st1 v;
       (st3, boundary1) \<leftarrow> listAppend st2 boundary h';
       weave_more G (a, b, c) st3 h' boundary1 es
     }
     else Some (st, h, boundary, next # es)
   }"

lemma weave_more_length:
  "weave_more G plane st h boundary es = Some (st', h', boundary', es') \<Longrightarrow>
   length es' \<le> length es"
proof (induction es arbitrary: st h boundary)
  case Nil
  then show ?case by simp
next
  case (Cons e es)
  obtain a b c where plane: "plane = (a, b, c)" by (cases plane) auto
  show ?case
  proof (cases "es' = e # es")
    case True
    then show ?thesis by simp
  next
    case False
    with Cons.prems obtain st3 h1 b1 where
      "weave_more G plane st3 h1 b1 es = Some (st', h', boundary', es')"
      unfolding plane by (auto split: bind_splits if_splits)
    from Cons.IH[OF this] show ?thesis by simp
  qed
qed

definition weave_merge ::
  "'p Geometry \<Rightarrow> 'p Polyhedron \<Rightarrow> vid \<Rightarrow> vid \<Rightarrow> vid \<Rightarrow> hid \<Rightarrow> HalfEdgeList \<Rightarrow> eid list \<Rightarrow>
   ('p Polyhedron \<times> hid \<times> HalfEdgeList \<times> eid list) option" where
  "weave_merge G st top_vertex v1 v2 h3 boundary rest =
     (if rest \<noteq> [] then do {
        pt \<leftarrow> position st top_vertex;
        p2 \<leftarrow> position st v2;
        p1 \<leftarrow> position st v1;
        if \<not> setPlanePoints G pt p2 p1 then None
        else weave_more G (pt, p2, p1) st h3 boundary rest
      }
      else Some (st, h3, boundary, rest))"

lemma weave_merge_length:
  "weave_merge G st top_vertex v1 v2 h3 boundary es = Some (st', h', boundary', es') \<Longrightarrow>
   length es' \<le> length es"
  by (auto simp: weave_merge_def split: bind_splits if_splits dest: weave_more_length)

definition weave_connect :: "'p Polyhedron \<Rightarrow> hid \<Rightarrow> hid option \<Rightarrow> 'p Polyhedron option" where
  "weave_connect st h1 last_h =
     (case last_h of
        None \<Rightarrow> Some st
      | Some l \<Rightarrow> do {
          (e, st1) \<leftarrow> newEdge st h1 (Some l);
          Some (st1\<lparr>m_edges := m_edges st1 @ [e]\<rparr>)
        })"

function weave_loop ::
  "'p Geometry \<Rightarrow> 'p Polyhedron \<Rightarrow> vid \<Rightarrow> hid option \<Rightarrow> hid option \<Rightarrow> eid list \<Rightarrow>
   ('p Polyhedron \<times> hid option \<times> hid option) option" where
  "weave_loop G st top_vertex first last_h seam =
     (if seam = [] then Some (st, first, last_h)
      else do {
        let edge = hd seam;
        fs \<leftarrow> fullySpecified st edge;
        if fs then None
        else do {
          v1 \<leftarrow> secondVertex st edge;
          v2 \<leftarrow> firstVertex st edge;
          (h1, st1) \<leftarrow> newHalfEdge st top_vertex;
          (h2, st2) \<leftarrow> newHalfEdge st1 v1;
          (h3, st3) \<leftarrow> newHalfEdge st2 v2;
          (st4, boundary1) \<leftarrow> listAppend st3 emptyList h1;
          (st5, boundary2) \<leftarrow> listAppend st4 boundary1 h2;
          (st6, boundary3) \<leftarrow> listAppend st5 boundary2 h3;
          st7 \<leftarrow> setSecondEdge st6 edge h2;
          (st8, h, boundary, rest) \<leftarrow> weave_merge G st7 top_vertex v1 v2 h3 boundary3 (tl seam);
          st9 \<leftarrow> addFace st8 boundary;
          st10 \<leftarrow> weave_connect st9 h1 last_h;
          weave_loop G st10 top_vertex (if first = None then Some h1 else first) (Some h) rest
        }
      })"
  by pat_completeness auto

termination weave_loop
proof (relation "measure (\<lambda>(G, st, top_vertex, first, last_h, seam). length seam)", goal_cases)
  case 1
  show ?case by simp
next
  case (2 G st top_vertex first last_h seam edge fs v1 v2 r1 h1 st1 r2 h2 st2 r3 h3 st3 r4 st4 b1 r5 st5 b2
          r6 st6 b3 st7 r7 st8 r8 h r9 boundary rest st9 st10)
  from 2 have "weave_merge G st7 top_vertex v1 v2 h3 b3 (tl seam) = Some (st8, h, boundary, rest)"
    by simp
  from weave_merge_length[OF this] 2(1) show ?case by (cases seam) auto
qed

definition weave :: "'p Geometry \<Rightarrow> 'p Polyhedron \<Rightarrow> Seam \<Rightarrow> 'p \<Rightarrow> 'p Polyhedron option" where
  "weave G st seam pos =
     (if length seam < 3 then None
      else do {
        (shifted, seam1) \<leftarrow> shift_criterion (ShiftSeamForWeaving G st pos) st seam;
        if \<not> shifted then None
        else do {
          let (top_vertex, st1) = newVertex st pos;
          (st2, first, last_h) \<leftarrow> weave_loop G st1 top_vertex None None seam1;
          f \<leftarrow> first;
          l \<leftarrow> last_h;
          fr \<leftarrow> halfEdgeHeap st2 f;
          lr \<leftarrow> halfEdgeHeap st2 l;
          if h_face fr = h_face lr then None
          else do {
            (e, st3) \<leftarrow> newEdge st2 f (Some l);
            Some (st3\<lparr>m_edges := m_edges st3 @ [e], m_vertices := m_vertices st3 @ [top_vertex]\<rparr>)
          }
        }
      })"

subsection \<open>Insertion\<close>

definition addFirstPoint :: "'p Polyhedron \<Rightarrow> 'p \<Rightarrow> 'p Polyhedron option" where
  "addFirstPoint st pos =
     (if \<not> empty st then None
      else (let (v, st1) = newVertex st pos
            in Some (st1\<lparr>m_vertices := m_vertices st1 @ [v]\<rparr>)))"

definition addSecondPoint :: "'p Polyhedron \<Rightarrow> 'p \<Rightarrow> 'p Polyhedron option" where
  "addSecondPoint st pos =
     (if \<not> point st then None
      else do {
        let onlyVertex = hd (m_vertices st);
        p \<leftarrow> position st onlyVertex;
        if pos \<noteq> p then do {
          let (newV, st1) = newVertex st pos;
          let st2 = st1\<lparr>m_vertices := m_vertices st1 @ [newV]\<rparr>;
          (halfEdge1, st3) \<leftarrow> newHalfEdge st2 onlyVertex;
          (halfEdge2, st4) \<leftarrow> newHalfEdge st3 newV;
          (e, st5) \<leftarrow> newEdge st4 halfEdge1 (Some halfEdge2);
          Some (st5\<lparr>m_edges := m_edges st5 @ [e]\<rparr>)
        }
        else Some st
      })"

definition addPointToEdge ::
  "'p Geometry \<Rightarrow> 'p Polyhedron \<Rightarrow> 'p \<Rightarrow> (bool \<times> 'p Polyhedron) option" where
  "addPointToEdge G st pos =
     (if \<not> edge st then None
      else do {
        let v1 = hd (m_vertices st);
        let v2 = hd (tl (m_vertices st));
        p1 \<leftarrow> position st v1;
        p2 \<leftarrow> position st v2;
        if \<not> linearlyDependent G p1 p2 pos then None
        else if containedWithinSegment G pos p1 p2 then Some (False, st)
        else do {
          st1 \<leftarrow> setPosition st v2 pos;
          Some (True, st1)
        }
      })"

fun makePolygon_loop ::
  "'p Polyhedron \<Rightarrow> HalfEdgeList \<Rightarrow> 'p list \<Rightarrow> ('p Polyhedron \<times> HalfEdgeList) option" where
  "makePolygon_loop st boundary [] = Some (st, boundary)"
| "makePolygon_loop st boundary (p # ps) = do {
     let (v, st1) = newVertex st p;
     (h, st2) \<leftarrow> newHalfEdge st1 v;
     (e, st3) \<leftarrow> newEdge st2 h None;
     let st4 = st3\<lparr>m_vertices := m_vertices st3 @ [v]\<rparr>;
     (st5, boundary1) \<leftarrow> listAppend st4 boundary h;
     let st6 = st5\<lparr>m_edges := m_edges st5 @ [e]\<rparr>;
     makePolygon_loop st6 boundary1 ps
   }"

definition makePolygon :: "'p Polyhedron \<Rightarrow> 'p list \<Rightarrow> 'p Polyhedron option" where
  "makePolygon st positions =
     (if \<not> empty st \<or> \<not> 2 < length positions then None
      else do {
        (st1, boundary) \<leftarrow> makePolygon_loop st emptyList positions;
        addFace st1 boundary
      })"

definition addPointToPolygon ::
  "'p Geometry \<Rightarrow> 'p Polyhedron \<Rightarrow> 'p \<Rightarrow> (bool \<times> 'p Polyhedron) option" where
  "addPointToPolygon G st pos = do {
     ps \<leftarrow> vertexPositions st;
     if 3 \<le> vertexCount st \<and> polygonContainsPoint G pos ps then Some (False, st)
     else do {
       let positions = convexHull2D G (ps @ [pos]);
       st1 \<leftarrow> makePolygon (clear st) positions;
       Some (True, st1)
     }
   }"

definition addThirdPoint ::
  "'p Geometry \<Rightarrow> 'p Polyhedron \<Rightarrow> 'p \<Rightarrow> (bool \<times> 'p Polyhedron) option" where
  "addThirdPoint G st pos =
     (if \<not> edge st then None
      else do {
        let v1 = hd (m_vertices st);
        let v2 = hd (tl (m_vertices st));
        p1 \<leftarrow> position st v1;
        p2 \<leftarrow> position st v2;
        if linearlyDependent G p1 p2 pos then addPointToEdge G st pos
        else addPointToPolygon G st pos
      })"

definition addPointToPolyhedron ::
  "'p Geometry \<Rightarrow> 'p Polyhedron \<Rightarrow> 'p \<Rightarrow> Seam \<Rightarrow> (bool \<times> 'p Polyhedron) option" where
  "addPointToPolyhedron G st pos seam =
     (if seam = [] \<or> m_faces st = [] then None
      else do {
        let remainingFace = hd (m_faces st);
        vertices \<leftarrow> getVertexPositions st remainingFace;
        st1 \<leftarrow> weave G st seam pos;
        if \<not> polyhedron st1 then None else Some (True, st1)
      })"

fun makePolyhedron_loop ::
  "nat \<Rightarrow> 'p Polyhedron \<Rightarrow> hid \<Rightarrow> hid \<Rightarrow> Seam \<Rightarrow> Seam option" where
  "makePolyhedron_loop 0 st first current seam = None"
| "makePolyhedron_loop (Suc n) st first current seam = do {
     cr \<leftarrow> halfEdgeHeap st current;
     seam1 \<leftarrow> push_back st seam (h_edge cr);
     if h_previous cr \<noteq> first then makePolyhedron_loop n st first (h_previous cr) seam1
     else Some seam1
   }"

definition makePolyhedron ::
  "'p Geometry \<Rightarrow> nat \<Rightarrow> 'p Polyhedron \<Rightarrow> 'p \<Rightarrow> (bool \<times> 'p Polyhedron) option" where
  "makePolyhedron G fuel st pos =
     (if \<not> polygon st then None
      else do {
        fr \<leftarrow> faceHeap st (hd (m_faces st));
        first \<leftarrow> l_head (f_boundary fr);
        seam \<leftarrow> makePolyhedron_loop fuel st first first [];
        addPointToPolyhedron G st pos seam
      })"

definition addFurtherPointToPolygon ::
  "'p Geometry \<Rightarrow> nat \<Rightarrow> 'p Polyhedron \<Rightarrow> 'p \<Rightarrow> (bool \<times> 'p Polyhedron) option" where
  "addFurtherPointToPolygon G fuel st pos =
     (if m_faces st = [] then None
      else do {
        let face = hd (m_faces st);
        status \<leftarrow> pointStatus G st face pos;
        (case status of
           PSInside \<Rightarrow> addPointToPolygon G st pos
         | PSAbove \<Rightarrow> do { st1 \<leftarrow> flipFace st face; makePolyhedron G fuel st1 pos }
         | PSBelow \<Rightarrow> makePolyhedron G fuel st pos)
      })"

definition addFurtherPointToPolyhedron ::
  "'p Geometry \<Rightarrow> nat \<Rightarrow> 'p Polyhedron \<Rightarrow> 'p \<Rightarrow> (bool \<times> 'p Polyhedron) option" where
  "addFurtherPointToPolyhedron G fuel st pos =
     (if \<not> polyhedron st then None
      else do {
        c \<leftarrow> contains G st pos;
        if c then Some (False, st)
        else do {
          (seam, st1) \<leftarrow> createSeam (SplitByVisibilityCriterion G pos) fuel st;
          if seam = [] then Some (False, st1)
          else do {
            st2 \<leftarrow> split fuel st1 seam;
            addPointToPolyhedron G st2 pos seam
          }
        }
      })"

definition addFurtherPoint ::
  "'p Geometry \<Rightarrow> nat \<Rightarrow> 'p Polyhedron \<Rightarrow> 'p \<Rightarrow> (bool \<times> 'p Polyhedron) option" where
  "addFurtherPoint G fuel st pos =
     (if faceCount st = 1 then addFurtherPointToPolygon G fuel st pos
      else addFurtherPointToPolyhedron G fuel st pos)"

text \<open>
  \<^verbatim>\<open>addPoint\<close> returns nothing: its result is the polyhedron alone.  The results of
  \<^verbatim>\<open>addThirdPoint\<close> is dropped, that of \<^verbatim>\<open>addFurtherPoint\<close> guards the update of the bounds.
\<close>

definition addPoint :: "'p Geometry \<Rightarrow> nat \<Rightarrow> 'p Polyhedron \<Rightarrow> 'p \<Rightarrow> 'p Polyhedron option" where
  "addPoint G fuel st pos =
     (if \<not> checkInvariant G (Mesh.truncate st) then None
      else do {
        st' \<leftarrow>
          (if vertexCount st = 0 then do {
             st1 \<leftarrow> addFirstPoint st pos;
             Some (st1\<lparr>m_bounds := \<lparr>bb_min = pos, bb_max = pos\<rparr>\<rparr>)
           }
           else if vertexCount st = 1 then do {
             st1 \<leftarrow> addSecondPoint st pos;
             Some (st1\<lparr>m_bounds := mergeWith G (m_bounds st1) pos\<rparr>)
           }
           else if vertexCount st = 2 then do {
             (r, st1) \<leftarrow> addThirdPoint G st pos;
             Some (st1\<lparr>m_bounds := mergeWith G (m_bounds st1) pos\<rparr>)
           }
           else do {
             (r, st1) \<leftarrow> addFurtherPoint G fuel st pos;
             if r then Some (st1\<lparr>m_bounds := mergeWith G (m_bounds st1) pos\<rparr>)
             else Some st1
           });
        if \<not> checkInvariant G (Mesh.truncate st') then None else Some st'
      })"

fun addPoints :: "'p Geometry \<Rightarrow> nat \<Rightarrow> 'p Polyhedron \<Rightarrow> 'p list \<Rightarrow> 'p Polyhedron option" where
  "addPoints G fuel st [] = Some st"
| "addPoints G fuel st (p # ps) = do { st1 \<leftarrow> addPoint G fuel st p; addPoints G fuel st1 ps }"

definition merge ::
  "'p Geometry \<Rightarrow> nat \<Rightarrow> 'p Polyhedron \<Rightarrow> 'p Polyhedron \<Rightarrow> 'p Polyhedron option" where
  "merge G fuel st other =
     (if \<not> empty other then do {
        ps \<leftarrow> vertexPositions other;
        addPoints G fuel st ps
      }
      else Some st)"

subsection \<open>Vertex removal\<close>

definition removeVertex :: "'p Geometry \<Rightarrow> nat \<Rightarrow> 'p Polyhedron \<Rightarrow> vid \<Rightarrow> 'p Polyhedron option" where
  "removeVertex G fuel st vertex = do {
     p \<leftarrow> position st vertex;
     found \<leftarrow> findVertexByPosition st p;
     if found \<noteq> Some vertex \<or> \<not> checkInvariant G (Mesh.truncate st) then None
     else do {
       (seam, st1) \<leftarrow> createSeam (SplitByConnectivityCriterion fuel vertex) fuel st;
       st2 \<leftarrow> split fuel st1 seam;
       st3 \<leftarrow> sealWithMultiplePolygons G st2 seam;
       st4 \<leftarrow> updateBounds G st3;
       if \<not> checkInvariant G (Mesh.truncate st4) then None else Some st4
     }
   }"

section \<open>An exact instance of the geometry\<close>

text \<open>
  Modelled from the spec: integer points with exact arithmetic, used to run the operations
  on concrete inputs.  Points are linearly dependent when they are collinear; a point is
  contained within a segment when it does not lie beyond either end; a point is above a
  plane when it lies on the side the normal points to; the normal of a face is taken from
  its boundary read counter-clockwise, and \<open>setPlanePoints\<close> orients its plane the other
  way round.
\<close>

type_synonym vec3 = "int \<times> int \<times> int"

fun vsub :: "vec3 \<Rightarrow> vec3 \<Rightarrow> vec3" where
  "vsub (a, b, c) (x, y, z) = (a - x, b - y, c - z)"

fun cross :: "vec3 \<Rightarrow> vec3 \<Rightarrow> vec3" where
  "cross (a, b, c) (x, y, z) = (b * z - c * y, c * x - a * z, a * y - b * x)"

fun dot :: "vec3 \<Rightarrow> vec3 \<Rightarrow> int" where
  "dot (a, b, c) (x, y, z) = a * x + b * y + c * z"

definition statusOf :: "int \<Rightarrow> PointStatus" where
  "statusOf d = (if 0 < d then PSAbove else if d < 0 then PSBelow else PSInside)"

definition exact_linearlyDependent :: "vec3 \<Rightarrow> vec3 \<Rightarrow> vec3 \<Rightarrow> bool" where
  "exact_linearlyDependent a b c = (cross (vsub b a) (vsub c a) = (0, 0, 0))"

definition exact_containedWithinSegment :: "vec3 \<Rightarrow> vec3 \<Rightarrow> vec3 \<Rightarrow> bool" where
  "exact_containedWithinSegment p s e = (dot (vsub s p) (vsub e p) \<le> 0)"

fun exact_mergeWith :: "vec3 BBox \<Rightarrow> vec3 \<Rightarrow> vec3 BBox" where
  "exact_mergeWith bb (x, y, z) =
     (case (bb_min bb, bb_max bb) of
        ((a, b, c), (d, e, f)) \<Rightarrow>
          \<lparr>bb_min = (min a x, min b y, min c z), bb_max = (max d x, max e y, max f z)\<rparr>)"

definition exact_setPlanePoints :: "vec3 \<Rightarrow> vec3 \<Rightarrow> vec3 \<Rightarrow> bool" where
  "exact_setPlanePoints a b c = (cross (vsub c a) (vsub b a) \<noteq> (0, 0, 0))"

definition exact_planePointStatus :: "vec3 \<Rightarrow> vec3 \<Rightarrow> vec3 \<Rightarrow> vec3 \<Rightarrow> PointStatus" where
  "exact_planePointStatus a b c q = statusOf (dot (vsub q a) (cross (vsub c a) (vsub b a)))"

fun faceNormal :: "vec3 list \<Rightarrow> vec3" where
  "faceNormal (a # b # c # ps) =
     (let n = cross (vsub b a) (vsub c a)
      in if n \<noteq> (0, 0, 0) then n else faceNormal (a # c # ps))"
| "faceNormal ps = (0, 0, 0)"

definition exact_facePointStatus :: "vec3 list \<Rightarrow> vec3 \<Rightarrow> PointStatus" where
  "exact_facePointStatus ps q =
     (case ps of [] \<Rightarrow> PSInside | a # _ \<Rightarrow> statusOf (dot (vsub q a) (faceNormal ps)))"

definition turn :: "vec3 \<Rightarrow> vec3 \<Rightarrow> vec3 \<Rightarrow> vec3 \<Rightarrow> int" where
  "turn n a b c = dot (cross (vsub b a) (vsub c a)) n"

definition exact_polygonContainsPoint :: "vec3 \<Rightarrow> vec3 list \<Rightarrow> bool" where
  "exact_polygonContainsPoint p ps =
     (ps \<noteq> [] \<and> (\<forall>(a, b) \<in> set (zip ps (rotate1 ps)). 0 \<le> turn (faceNormal ps) a b p))"

text \<open>The hull of coplanar points by gift wrapping, counter-clockwise about the normal.\<close>

definition wrapBetter :: "vec3 \<Rightarrow> vec3 \<Rightarrow> vec3 \<Rightarrow> vec3 \<Rightarrow> bool" where
  "wrapBetter n cur best c =
     (c \<noteq> cur \<and>
      (best = cur \<or> turn n cur best c < 0 \<or>
       (turn n cur best c = 0 \<and>
        dot (vsub best cur) (vsub best cur) < dot (vsub c cur) (vsub c cur))))"

definition wrapNext :: "vec3 \<Rightarrow> vec3 list \<Rightarrow> vec3 \<Rightarrow> vec3" where
  "wrapNext n ps cur = foldl (\<lambda>best c. if wrapBetter n cur best c then c else best) cur ps"

fun wrap :: "nat \<Rightarrow> vec3 \<Rightarrow> vec3 list \<Rightarrow> vec3 \<Rightarrow> vec3 \<Rightarrow> vec3 list" where
  "wrap 0 n ps start cur = []"
| "wrap (Suc k) n ps start cur =
     (let nxt = wrapNext n ps cur
      in if nxt = start then [cur] else cur # wrap k n ps start nxt)"

fun lexLess :: "vec3 \<Rightarrow> vec3 \<Rightarrow> bool" where
  "lexLess (a, b, c) (x, y, z) = (a < x \<or> (a = x \<and> (b < y \<or> (b = y \<and> c < z))))"

definition lexMin :: "vec3 list \<Rightarrow> vec3" where
  "lexMin ps = foldl (\<lambda>m p. if lexLess p m then p else m) (hd ps) ps"

definition exact_convexHull2D :: "vec3 list \<Rightarrow> vec3 list" where
  "exact_convexHull2D ps =
     (if ps = [] then []
      else wrap (length ps) (faceNormal (remdups ps)) ps (lexMin ps) (lexMin ps))"

definition exactGeometry :: "vec3 Geometry" where
  "exactGeometry =
     \<lparr>linearlyDependent = exact_linearlyDependent,
      containedWithinSegment = exact_containedWithinSegment,
      mergeWith = exact_mergeWith,
      setPlanePoints = exact_setPlanePoints,
      planePointStatus = exact_planePointStatus,
      facePointStatus = exact_facePointStatus,
      polygonContainsPoint = exact_polygonContainsPoint,
      convexHull2D = exact_convexHull2D,
      checkInvariant = (\<lambda>_. True)\<rparr>"

definition emptyPolyhedron :: "vec3 Polyhedron" where
  "emptyPolyhedron =
     \<lparr>vertexHeap = (\<lambda>_. None), halfEdgeHeap = (\<lambda>_. None), edgeHeap = (\<lambda>_. None),
      faceHeap = (\<lambda>_. None), m_vertices = [], m_edges = [], m_faces = [],
      m_bounds = \<lparr>bb_min = (0, 0, 0), bb_max = (0, 0, 0)\<rparr>, nextId = 0,
      callbackTrace = []\<rparr>"

text \<open>
  Four meshes as the insertion builds them from the empty polyhedron (see the lemmas
  \<open>pointPolyhedron_built\<close> to \<open>tetrahedron_built\<close>): a point, an edge, a triangle and
  a tetrahedron, each with a fresh callback trace.
\<close>

definition pointPolyhedron :: "vec3 Polyhedron" where
  "pointPolyhedron =
     \<lparr>vertexHeap = [0 \<mapsto> \<lparr>v_position = (0, 0, 0), v_leaving = None\<rparr>],
      halfEdgeHeap = (\<lambda>_. None), edgeHeap = (\<lambda>_. None), faceHeap = (\<lambda>_. None),
      m_vertices = [0], m_edges = [], m_faces = [],
      m_bounds = \<lparr>bb_min = (0, 0, 0), bb_max = (0, 0, 0)\<rparr>, nextId = 1,
      callbackTrace = []\<rparr>"

definition edgePolyhedron :: "vec3 Polyhedron" where
  "edgePolyhedron =
     \<lparr>vertexHeap =
        [0 \<mapsto> \<lparr>v_position = (0, 0, 0), v_leaving = Some 2\<rparr>,
         1 \<mapsto> \<lparr>v_position = (1, 0, 0), v_leaving = Some 3\<rparr>],
      halfEdgeHeap =
        [2 \<mapsto> \<lparr>h_origin = 0, h_edge = Some 4, h_face = None, h_next = 2, h_previous = 2\<rparr>,
         3 \<mapsto> \<lparr>h_origin = 1, h_edge = Some 4, h_face = None, h_next = 3, h_previous = 3\<rparr>],
      edgeHeap = [4 \<mapsto> \<lparr>e_first = 2, e_second = Some 3\<rparr>], faceHeap = (\<lambda>_. None),
      m_vertices = [0, 1], m_edges = [4], m_faces = [],
      m_bounds = \<lparr>bb_min = (0, 0, 0), bb_max = (1, 0, 0)\<rparr>, nextId = 5,
      callbackTrace = []\<rparr>"

definition trianglePolygon :: "vec3 Polyhedron" where
  "trianglePolygon =
     \<lparr>vertexHeap =
        [5 \<mapsto> \<lparr>v_position = (0, 0, 0), v_leaving = Some 6\<rparr>,
         8 \<mapsto> \<lparr>v_position = (1, 0, 0), v_leaving = Some 9\<rparr>,
         11 \<mapsto> \<lparr>v_position = (1, 1, 0), v_leaving = Some 12\<rparr>],
      halfEdgeHeap =
        [6 \<mapsto> \<lparr>h_origin = 5, h_edge = Some 7, h_face = Some 14, h_next = 9, h_previous = 12\<rparr>,
         9 \<mapsto> \<lparr>h_origin = 8, h_edge = Some 10, h_face = Some 14, h_next = 12, h_previous = 6\<rparr>,
         12 \<mapsto> \<lparr>h_origin = 11, h_edge = Some 13, h_face = Some 14, h_next = 6, h_previous = 9\<rparr>],
      edgeHeap =
        [7 \<mapsto> \<lparr>e_first = 6, e_second = None\<rparr>, 10 \<mapsto> \<lparr>e_first = 9, e_second = None\<rparr>,
         13 \<mapsto> \<lparr>e_first = 12, e_second = None\<rparr>],
      faceHeap = [14 \<mapsto> \<lparr>f_boundary = \<lparr>l_head = Some 6, l_size = 3\<rparr>\<rparr>],
      m_vertices = [5, 8, 11], m_edges = [7, 10, 13], m_faces = [14],
      m_bounds = \<lparr>bb_min = (0, 0, 0), bb_max = (1, 1, 0)\<rparr>, nextId = 15,
      callbackTrace = []\<rparr>"

definition tetrahedron :: "vec3 Polyhedron" where
  "tetrahedron =
     \<lparr>vertexHeap =
        [5 \<mapsto> \<lparr>v_position = (0, 0, 0), v_leaving = Some 21\<rparr>,
         15 \<mapsto> \<lparr>v_position = (0, 0, 1), v_leaving = Some 25\<rparr>,
         8 \<mapsto> \<lparr>v_position = (1, 0, 0), v_leaving = Some 26\<rparr>,
         11 \<mapsto> \<lparr>v_position = (1, 1, 0), v_leaving = Some 27\<rparr>],
      halfEdgeHeap =
        [6 \<mapsto> \<lparr>h_origin = 5, h_edge = Some 7, h_face = Some 14, h_next = 12, h_previous = 9\<rparr>,
         9 \<mapsto> \<lparr>h_origin = 8, h_edge = Some 10, h_face = Some 14, h_next = 6, h_previous = 12\<rparr>,
         12 \<mapsto> \<lparr>h_origin = 11, h_edge = Some 13, h_face = Some 14, h_next = 9, h_previous = 6\<rparr>,
         17 \<mapsto> \<lparr>h_origin = 11, h_edge = Some 7, h_face = Some 19, h_next = 18, h_previous = 16\<rparr>,
         21 \<mapsto> \<lparr>h_origin = 5, h_edge = Some 10, h_face = Some 23, h_next = 22, h_previous = 20\<rparr>,
         20 \<mapsto> \<lparr>h_origin = 15, h_edge = Some 24, h_face = Some 23, h_next = 21, h_previous = 22\<rparr>,
         18 \<mapsto> \<lparr>h_origin = 5, h_edge = Some 24, h_face = Some 19, h_next = 16, h_previous = 17\<rparr>,
         26 \<mapsto> \<lparr>h_origin = 8, h_edge = Some 13, h_face = Some 28, h_next = 27, h_previous = 25\<rparr>,
         25 \<mapsto> \<lparr>h_origin = 15, h_edge = Some 29, h_face = Some 28, h_next = 26, h_previous = 27\<rparr>,
         22 \<mapsto> \<lparr>h_origin = 8, h_edge = Some 29, h_face = Some 23, h_next = 20, h_previous = 21\<rparr>,
         16 \<mapsto> \<lparr>h_origin = 15, h_edge = Some 30, h_face = Some 19, h_next = 17, h_previous = 18\<rparr>,
         27 \<mapsto> \<lparr>h_origin = 11, h_edge = Some 30, h_face = Some 28, h_next = 25, h_previous = 26\<rparr>],
      edgeHeap =
        [7 \<mapsto> \<lparr>e_first = 6, e_second = Some 17\<rparr>, 10 \<mapsto> \<lparr>e_first = 9, e_second = Some 21\<rparr>,
         24 \<mapsto> \<lparr>e_first = 20, e_second = Some 18\<rparr>, 13 \<mapsto> \<lparr>e_first = 12, e_second = Some 26\<rparr>,
         29 \<mapsto> \<lparr>e_first = 25, e_second = Some 22\<rparr>, 30 \<mapsto> \<lparr>e_first = 16, e_second = Some 27\<rparr>],
      faceHeap =
        [14 \<mapsto> \<lparr>f_boundary = \<lparr>l_head = Some 6, l_size = 3\<rparr>\<rparr>,
         19 \<mapsto> \<lparr>f_boundary = \<lparr>l_head = Some 16, l_size = 3\<rparr>\<rparr>,
         23 \<mapsto> \<lparr>f_boundary = \<lparr>l_head = Some 20, l_size = 3\<rparr>\<rparr>,
         28 \<mapsto> \<lparr>f_boundary = \<lparr>l_head = Some 25, l_size = 3\<rparr>\<rparr>],
      m_vertices = [5, 8, 11, 15], m_edges = [7, 10, 13, 24, 29, 30],
      m_faces = [14, 19, 23, 28], m_bounds = \<lparr>bb_min = (0, 0, 0), bb_max = (1, 1, 1)\<rparr>,
      nextId = 31, callbackTrace = []\<rparr>"

text \<open>
  A classification that reports every point above every face, as an epsilon-based one can
  on a hull smaller than its epsilon.
\<close>

definition aboveEverywhere :: "vec3 Geometry" where
  "aboveEverywhere = exactGeometry\<lparr>facePointStatus := (\<lambda>_ _. PSAbove)\<rparr>"

text \<open>
  Modelled from the spec: the vector library decides collinearity within a tolerance (its
  epsilon-based point-vs-segment classification).  Three points count as linearly
  dependent when the squared area of the parallelogram they span is at most \<open>eps\<close>; with
  \<open>eps = 0\<close> this is the exact test.
\<close>

definition tolerant_linearlyDependent :: "int \<Rightarrow> vec3 \<Rightarrow> vec3 \<Rightarrow> vec3 \<Rightarrow> bool" where
  "tolerant_linearlyDependent eps a b c =
     (let n = cross (vsub b a) (vsub c a) in dot n n \<le> eps)"

definition tolerantGeometry :: "int \<Rightarrow> vec3 Geometry" where
  "tolerantGeometry eps = exactGeometry\<lparr>linearlyDependent := tolerant_linearlyDependent eps\<rparr>"

definition freshCallback :: "'p Polyhedron \<Rightarrow> 'p Polyhedron" where
  "freshCallback st = st\<lparr>callbackTrace := []\<rparr>"

fun exact_bboxContains :: "vec3 BBox \<Rightarrow> vec3 \<Rightarrow> bool" where
  "exact_bboxContains bb (x, y, z) =
     (case (bb_min bb, bb_max bb) of
        ((a, b, c), (d, e, f)) \<Rightarrow> a \<le> x \<and> x \<le> d \<and> b \<le> y \<and> y \<le> e \<and> c \<le> z \<and> z \<le> f)"

section \<open>Notions used in the statements\<close>

text \<open>
  Two seam edges are linked when the first vertex of the one is the second vertex of the
  other; \<open>checkEdges\<close> holds when every edge is linked to its successor and the last
  to the first.
\<close>

definition linked :: "'p Polyhedron \<Rightarrow> eid \<Rightarrow> eid \<Rightarrow> bool" where
  "linked st a b = (\<exists>v. firstVertex st a = Some v \<and> secondVertex st b = Some v)"

text \<open>
  Identifiers are handed out in increasing order.  A seam edge is allocated below \<open>n\<close> when
  the edge exists and its first half-edge and that half-edge's successor have identifiers
  below \<open>n\<close>: then no object created from \<open>n\<close> on is one of them.
\<close>

definition allocatedBelow :: "'p Polyhedron \<Rightarrow> nat \<Rightarrow> eid \<Rightarrow> bool" where
  "allocatedBelow st n e =
     (case edgeHeap st e of
        None \<Rightarrow> False
      | Some ed \<Rightarrow> e_first ed < n \<and>
          (case halfEdgeHeap st (e_first ed) of
             None \<Rightarrow> False
           | Some h1 \<Rightarrow> h_next h1 < n))"

text \<open>
  The boundary list \<open>b\<close> is a ring of the \<open>k\<close> half-edges \<open>n, \<dots>, n + k - 1\<close>: each is
  followed by the next one, the last by the first, and the first is preceded by the last.
\<close>

definition ring :: "'p Polyhedron \<Rightarrow> HalfEdgeList \<Rightarrow> nat \<Rightarrow> nat \<Rightarrow> bool" where
  "ring st b n k =
     (l_size b = k \<and>
      (if k = 0 then l_head b = None
       else l_head b = Some n
          \<and> (\<forall>i<k. \<exists>r. halfEdgeHeap st (n + i) = Some r
                 \<and> h_next r = (if Suc i = k then n else n + Suc i))
          \<and> (\<exists>r. halfEdgeHeap st n = Some r \<and> h_previous r = n + (k - 1))))"

text \<open>The fields of a half-edge that linking it into a boundary, or into a face, leaves alone.\<close>

definition ownFields :: "HalfEdge \<Rightarrow> vid \<times> eid option \<times> fid option" where
  "ownFields r = (h_origin r, h_edge r, h_face r)"

definition keptFields :: "HalfEdge \<Rightarrow> vid \<times> eid option \<times> hid \<times> hid" where
  "keptFields r = (h_origin r, h_edge r, h_next r, h_previous r)"





section \<open>Rules for running the model on concrete inputs\<close>

declare shift_while.simps [simp del]
declare findNextSplittingEdge_loop.simps [simp del]
declare weave_loop.simps [simp del]
declare sealWithMultiplePolygons_loop.simps [simp del]

lemma bind_weak_cong: "m = m' \<Longrightarrow> Option.bind m f = Option.bind m' f"
  by simp

lemmas run_congs = bind_weak_cong if_weak_cong prod.case_cong_weak let_weak_cong

lemmas fuel_numeral =
  makePolyhedron_loop.simps(2)[of "pred_numeral k" for k, folded numeral_eq_Suc]
  createSeam_loop.simps(2)[of _ "pred_numeral k" for k, folded numeral_eq_Suc]
  deleteFaces.simps(2)[of "pred_numeral k" for k, folded numeral_eq_Suc]
  deleteFaces_loop.simps(2)[of "pred_numeral k" for k, folded numeral_eq_Suc]
  incident_loop.simps(2)[of "pred_numeral k" for k, folded numeral_eq_Suc]
  cycle.simps(2)[of _ "pred_numeral k" for k, folded numeral_eq_Suc]

lemma fuel_one:
  "makePolyhedron_loop 1 = makePolyhedron_loop (Suc 0)"
  "createSeam_loop c 1 = createSeam_loop c (Suc 0)"
  "deleteFaces 1 = deleteFaces (Suc 0)"
  "deleteFaces_loop 1 = deleteFaces_loop (Suc 0)"
  "incident_loop 1 = incident_loop (Suc 0)"
  "cycle st 1 = cycle st (Suc 0)"
  by simp_all

lemmas model_defs =
  firstVertex_def secondVertex_def checkEdge_def push_back_def checkEdges_def shift_def
  shift_criterion_def replace_def position_def setLeaving_def setPosition_def setEdge_def
  unsetEdge_def setFace_def setNext_def setPrevious_def newVertex_def newHalfEdge_def
  newEdge_def emptyList_def listAppend_def listItems_def newFace_def boundaryHalfEdges_def
  originPosition_def getVertexPositions_def deleteFace_def deleteEdge_def deleteVertices_def
  flipFace_def fullySpecified_def firstEdge_def secondEdge_def twin_def twinOf_def flip_def
  makeSecondEdge_def setFirstAsLeaving_def unsetSecondEdge_def setSecondEdge_def
  nextIncident_def vertexCount_def faceCount_def empty_def point_def edge_def polygon_def
  polyhedron_def pointStatus_def contains_def vertexPositions_def findVertexByPosition_def
  clear_def updateBounds_def invokeCallback_def firstFace_def secondFace_def matches_def
  nextCandidate_def findNextSplittingEdge_def createSeam_def incident_def
  SplitByConnectivityCriterion_def SplitByVisibilityCriterion_def deleteFaces_edge_def
  deleteFaces_vertex_def split_def checkRemainingPoints_def ShiftSeamForSealing_def
  addFace_def sealWithSinglePolygon_def sealWithMultiplePolygons_close_def
  sealWithMultiplePolygons_def ShiftSeamForWeaving_def weave_merge_def weave_connect_def
  weave_def addFirstPoint_def addSecondPoint_def addPointToEdge_def makePolygon_def
  addPointToPolygon_def addThirdPoint_def addPointToPolyhedron_def makePolyhedron_def
  addFurtherPointToPolygon_def addFurtherPointToPolyhedron_def addFurtherPoint_def
  addPoint_def merge_def removeVertex_def

lemmas exact_defs =
  statusOf_def exact_linearlyDependent_def exact_containedWithinSegment_def
  exact_setPlanePoints_def exact_planePointStatus_def exact_facePointStatus_def turn_def
  exact_polygonContainsPoint_def wrapBetter_def wrapNext_def lexMin_def exact_convexHull2D_def
  exactGeometry_def emptyPolyhedron_def trianglePolygon_def tetrahedron_def
  pointPolyhedron_def edgePolyhedron_def freshCallback_def

lemmas run_simps = model_defs exact_defs Mesh.truncate_def Let_def fuel_numeral fuel_one
  shift_while.simps findNextSplittingEdge_loop.simps weave_loop.simps
  sealWithMultiplePolygons_loop.simps

text \<open>The four meshes are what the insertion builds.\<close>

lemma pointPolyhedron_built:
  "addPoints exactGeometry 20 emptyPolyhedron [(0, 0, 0)] = Some pointPolyhedron"
  by (simp add: run_simps del: One_nat_def cong: run_congs)

lemma edgePolyhedron_built:
  "addPoints exactGeometry 20 emptyPolyhedron [(0, 0, 0), (1, 0, 0)] = Some edgePolyhedron"
  by (simp add: run_simps del: One_nat_def cong: run_congs)

lemma trianglePolygon_built:
  "map_option freshCallback
     (addPoints exactGeometry 20 emptyPolyhedron [(0, 0, 0), (1, 0, 0), (1, 1, 0)])
   = Some trianglePolygon"
  by (simp add: run_simps del: One_nat_def cong: run_congs)

lemma tetrahedron_built:
  "map_option freshCallback
     (addPoints exactGeometry 20 emptyPolyhedron [(0, 0, 0), (1, 0, 0), (1, 1, 0), (0, 0, 1)])
   = Some tetrahedron"
  by (simp add: run_simps del: One_nat_def cong: run_congs)

section \<open>Rotation of a seam\<close>

lemma checkEdges_loop_True:
  "checkEdges_loop st l es = Some True \<longleftrightarrow> successively (linked st) (l # es)"
  by (induction es arbitrary: l) (auto simp: linked_def split: bind_splits if_splits)

lemma checkEdges_True:
  "checkEdges st seam = Some True \<longleftrightarrow> 2 < length seam \<and> successively (linked st) (last seam # seam)"
  by (simp add: checkEdges_def checkEdges_loop_True)

lemma successively_rotate1:
  assumes "successively P (last xs # xs)" "xs \<noteq> []"
  shows "successively P (last (rotate1 xs) # rotate1 xs)"
proof -
  obtain x ys where xs: "xs = x # ys" using assms(2) by (cases xs) auto
  from assms(1) have a: "P (last (x # ys)) x" and b: "successively P (x # ys)"
    by (simp_all add: xs)
  show ?thesis
  proof (cases ys)
    case Nil
    with a show ?thesis by (simp add: xs)
  next
    case (Cons y zs)
    with a b show ?thesis
      using successively_append_iff[of P "y # zs" "[x]"] by (simp add: xs)
  qed
qed

lemma checkEdges_rotate1:
  "checkEdges st seam = Some True \<Longrightarrow> checkEdges st (rotate1 seam) = Some True"
proof -
  assume a: "checkEdges st seam = Some True"
  then have l: "2 < length seam" and s: "successively (linked st) (last seam # seam)"
    by (simp_all add: checkEdges_True)
  from l have ne: "seam \<noteq> []" by auto
  from successively_rotate1[OF s ne] l show ?thesis by (simp add: checkEdges_True)
qed

lemma shift_eq_Some:
  "shift st seam = Some seam' \<longleftrightarrow> seam \<noteq> [] \<and> seam' = rotate1 seam \<and> checkEdges st (rotate1 seam) = Some True"
  by (cases seam) (auto simp: shift_def Let_def split: bind_splits if_splits)

lemma mset_rotate_seam: "mset (rotate k xs) = mset xs"
proof (induction k)
  case 0
  show ?case by simp
next
  case (Suc k)
  have "mset (rotate1 ys) = mset ys" for ys :: "'a list" by (cases ys) simp_all
  with Suc show ?case by simp
qed

lemma shift_while_rotate:
  "shift_while c st i seam = Some (b, seam') \<Longrightarrow> i \<le> length seam \<Longrightarrow>
   \<exists>k. k + i \<le> length seam \<and> seam' = rotate k seam \<and>
       (b \<longrightarrow> c seam' = Some True) \<and> (\<not> b \<longrightarrow> k + i = length seam)"
proof (induction c st i seam rule: shift_while.induct)
  case (1 criterion st i seam)
  show ?case
  proof (cases "i < length seam")
    case False
    with "1.prems" show ?thesis by (intro exI[of _ 0]) (auto simp: shift_while.simps[of criterion st i seam])
  next
    case lt: True
    then obtain cv where cv: "criterion seam = Some cv"
      using "1.prems"(1) by (auto simp: shift_while.simps[of criterion st i seam] split: bind_splits)
    show ?thesis
    proof (cases cv)
      case True
      with cv lt "1.prems" show ?thesis by (intro exI[of _ 0]) (auto simp: shift_while.simps[of criterion st i seam])
    next
      case False
      with cv lt "1.prems"(1) obtain s1 where s1: "shift st seam = Some s1"
        and rec: "shift_while criterion st (Suc i) s1 = Some (b, seam')"
        by (auto simp: shift_while.simps[of criterion st i seam] split: bind_splits)
      from s1 have r1: "s1 = rotate1 seam" by (simp add: shift_eq_Some)
      have len: "length s1 = length seam" by (simp add: r1)
      from "1.IH"[OF lt cv _ s1 rec] False lt len
      obtain k where k: "k + Suc i \<le> length seam" "seam' = rotate k s1"
        "b \<longrightarrow> criterion seam' = Some True" "\<not> b \<longrightarrow> k + Suc i = length seam"
        by auto
      have "seam' = rotate (Suc k) seam" using k(2) r1 by (simp add: rotate_rotate[symmetric] del: rotate_Suc) (simp add: rotate1_rotate_swap)
      with k show ?thesis by (intro exI[of _ "Suc k"]) auto
    qed
  qed
qed

lemma shift_while_total:
  "checkEdges st seam = Some True \<Longrightarrow> (\<forall>k. c (rotate k seam) \<noteq> None) \<Longrightarrow>
   \<exists>r. shift_while c st i seam = Some r"
proof (induction c st i seam rule: shift_while.induct)
  case (1 criterion st i seam)
  show ?case
  proof (cases "i < length seam")
    case False
    then show ?thesis by (auto simp: shift_while.simps[of criterion st i seam])
  next
    case lt: True
    from "1.prems"(2)[rule_format, of 0] obtain cv where cv: "criterion seam = Some cv" by auto
    show ?thesis
    proof (cases cv)
      case True
      with cv lt show ?thesis by (auto simp: shift_while.simps[of criterion st i seam])
    next
      case False
      have ne: "seam \<noteq> []" using lt by auto
      have s1: "shift st seam = Some (rotate1 seam)"
        using checkEdges_rotate1[OF "1.prems"(1)] ne by (simp add: shift_eq_Some)
      have "\<forall>k. criterion (rotate k (rotate1 seam)) \<noteq> None"
        using "1.prems"(2) by (metis rotate_Suc rotate1_rotate_swap)
      from "1.IH"[OF lt cv _ s1 checkEdges_rotate1[OF "1.prems"(1)] this] False
      obtain r where "shift_while criterion st (Suc i) (rotate1 seam) = Some r" by auto
      then show ?thesis using lt cv False s1 by (auto simp: shift_while.simps[of criterion st i seam])
    qed
  qed
qed


text \<open>
  C10.  For a non-empty seam, a single \<open>shift\<close> that returns has moved the first edge to
  the end, and \<open>shift\<close> with a criterion returns a rotation of the seam with the same edges:
  one that satisfies the criterion when the result is true, and the seam as it was when
  the result is false (as many single shifts as the seam has edges).  On a seam that is a
  closed loop of more than two edges both return.
\<close>

theorem shift_only_rotates:
  assumes "seam \<noteq> []"
  shows "(\<forall>seam'. shift st seam = Some seam' \<longrightarrow>
            seam' = tl seam @ [hd seam] \<and> seam' = rotate1 seam \<and> mset seam' = mset seam)
       \<and> (\<forall>b seam'. shift_criterion c st seam = Some (b, seam') \<longrightarrow>
            (\<exists>k\<le>length seam. seam' = rotate k seam) \<and> mset seam' = mset seam \<and>
            (b \<longrightarrow> c seam' = Some True) \<and> (\<not> b \<longrightarrow> seam' = seam))
       \<and> (checkEdges st seam = Some True \<and> (\<forall>k. c (rotate k seam) \<noteq> None) \<longrightarrow>
            shift st seam = Some (rotate1 seam) \<and> (\<exists>r. shift_criterion c st seam = Some r))"
proof (intro conjI allI impI)
  fix seam' assume "shift st seam = Some seam'"
  then show "seam' = tl seam @ [hd seam]" "seam' = rotate1 seam" "mset seam' = mset seam"
    using assms by (cases seam; simp add: shift_eq_Some)+
next
  fix b seam' assume a: "shift_criterion c st seam = Some (b, seam')"
  from shift_while_rotate[OF a[unfolded shift_criterion_def]]
  obtain k where k: "k \<le> length seam" "seam' = rotate k seam"
    "b \<longrightarrow> c seam' = Some True" "\<not> b \<longrightarrow> k = length seam"
    by auto
  show "\<exists>k\<le>length seam. seam' = rotate k seam" using k by blast
  show "mset seam' = mset seam" using k by (simp add: mset_rotate_seam)
  show "c seam' = Some True" if b using k that by simp
  show "seam' = seam" if "\<not> b" using k that by simp
next
  assume a: "checkEdges st seam = Some True \<and> (\<forall>k. c (rotate k seam) \<noteq> None)"
  show "shift st seam = Some (rotate1 seam)"
    using a assms by (simp add: shift_eq_Some checkEdges_rotate1)
  show "\<exists>r. shift_criterion c st seam = Some r"
    unfolding shift_criterion_def using a shift_while_total by blast
qed

theorem shift_only_rotates_witness:
  "[7, 13, 10] \<noteq> ([] :: Seam)
   \<and> checkEdges trianglePolygon [7, 13, 10] = Some True
   \<and> shift trianglePolygon [7, 13, 10] = Some [13, 10, 7]
   \<and> shift_criterion (\<lambda>s. Some (hd s = 10)) trianglePolygon [7, 13, 10] = Some (True, [10, 7, 13])
   \<and> shift_criterion (\<lambda>s. Some False) trianglePolygon [7, 13, 10] = Some (False, [7, 13, 10])"
proof -
  have ne: "[7, 13, 10] \<noteq> ([] :: Seam)" by simp
  have ce: "checkEdges trianglePolygon [7, 13, 10] = Some True"
    by (simp add: run_simps del: One_nat_def cong: run_congs)
  have c2: "\<forall>k. (Some False :: bool option) \<noteq> None" by simp
  note t2 = shift_only_rotates[OF ne, of trianglePolygon "\<lambda>s. Some False"]
  from t2 ce c2 have "shift trianglePolygon [7, 13, 10] = Some (rotate1 [7, 13, 10])"
    by blast
  then have s: "shift trianglePolygon [7, 13, 10] = Some [13, 10, 7]" by simp
  from t2 ce c2 obtain r where
    "shift_criterion (\<lambda>s. Some False) trianglePolygon [7, 13, 10] = Some r"
    by blast
  then obtain b s' where
    r: "shift_criterion (\<lambda>s. Some False) trianglePolygon [7, 13, 10] = Some (b, s')"
    by (cases r) auto
  from t2 r have "(b \<longrightarrow> (Some False :: bool option) = Some True) \<and> (\<not> b \<longrightarrow> s' = [7, 13, 10])"
    by blast
  then have "\<not> b" "s' = [7, 13, 10]" by auto
  with r have f: "shift_criterion (\<lambda>s. Some False) trianglePolygon [7, 13, 10]
      = Some (False, [7, 13, 10])" by simp
  have g: "shift_criterion (\<lambda>s. Some (hd s = 10)) trianglePolygon [7, 13, 10]
      = Some (True, [10, 7, 13])"
    by (simp add: run_simps del: One_nat_def cong: run_congs)
  from ne ce s f g show ?thesis by blast
qed

section \<open>The bounding box is written by \<open>addPoint\<close> and \<open>updateBounds\<close> only\<close>

lemma prim_bounds:
  "setLeaving st v l = Some st' \<Longrightarrow> m_bounds st' = m_bounds st"
  "setPosition st v p = Some st' \<Longrightarrow> m_bounds st' = m_bounds st"
  "setEdge st h e = Some st' \<Longrightarrow> m_bounds st' = m_bounds st"
  "unsetEdge st h = Some st' \<Longrightarrow> m_bounds st' = m_bounds st"
  "setFace st h f = Some st' \<Longrightarrow> m_bounds st' = m_bounds st"
  "setNext st h n = Some st' \<Longrightarrow> m_bounds st' = m_bounds st"
  "setPrevious st h n = Some st' \<Longrightarrow> m_bounds st' = m_bounds st"
  "newVertex st p = (v, st') \<Longrightarrow> m_bounds st' = m_bounds st"
  "deleteFace st fa = Some st' \<Longrightarrow> m_bounds st' = m_bounds st"
  "deleteEdge st ea = Some st' \<Longrightarrow> m_bounds st' = m_bounds st"
  "flip st ea = Some st' \<Longrightarrow> m_bounds st' = m_bounds st"
  by (auto simp: setLeaving_def setPosition_def setEdge_def unsetEdge_def setFace_def setNext_def
      setPrevious_def newVertex_def deleteFace_def deleteEdge_def deleteVertices_def flip_def
      invokeCallback_def clear_def Let_def split: bind_splits)

lemma pure_bounds [simp]:
  "m_bounds (deleteVertices st vs) = m_bounds st"
  "m_bounds (invokeCallback ev st) = m_bounds st"
  "m_bounds (clear st) = m_bounds st"
  by (simp_all add: deleteVertices_def invokeCallback_def clear_def)

lemma newHalfEdge_bounds:
  "newHalfEdge st v = Some (h, st') \<Longrightarrow> m_bounds st' = m_bounds st"
  by (auto simp: newHalfEdge_def Let_def split: bind_splits dest!: prim_bounds)

lemma newEdge_bounds:
  "newEdge st h1 h2 = Some (e, st') \<Longrightarrow> m_bounds st' = m_bounds st"
  by (auto simp: newEdge_def Let_def split: bind_splits option.splits dest!: prim_bounds)

lemma listAppend_bounds:
  "listAppend st l h = Some (st', l') \<Longrightarrow> m_bounds st' = m_bounds st"
  by (auto simp: listAppend_def Let_def split: bind_splits option.splits dest!: prim_bounds)

lemma setFaces_bounds:
  "setFaces st f hs = Some st' \<Longrightarrow> m_bounds st' = m_bounds st"
  by (induction hs arbitrary: st) (auto split: bind_splits dest!: prim_bounds)

lemma newFace_bounds:
  "newFace st l = Some (f, st') \<Longrightarrow> m_bounds st' = m_bounds st"
  by (auto simp: newFace_def Let_def split: bind_splits if_splits dest!: setFaces_bounds)

lemma addFace_bounds:
  "addFace st l = Some st' \<Longrightarrow> m_bounds st' = m_bounds st"
  by (auto simp: addFace_def Let_def split: bind_splits dest!: newFace_bounds prim_bounds)



lemma edgeops_bounds:
  "makeSecondEdge st e h = Some st' \<Longrightarrow> m_bounds st' = m_bounds st"
  "setFirstAsLeaving st e = Some st' \<Longrightarrow> m_bounds st' = m_bounds st"
  "unsetSecondEdge st e = Some st' \<Longrightarrow> m_bounds st' = m_bounds st"
  "setSecondEdge st e h = Some st' \<Longrightarrow> m_bounds st' = m_bounds st"
  by (auto simp: makeSecondEdge_def setFirstAsLeaving_def unsetSecondEdge_def setSecondEdge_def
      split: bind_splits if_splits dest!: prim_bounds)












lemma sealWithSinglePolygon_loop_bounds:
  "sealWithSinglePolygon_loop st b es = Some (st', b') \<Longrightarrow> m_bounds st' = m_bounds st"
  by (induction es arbitrary: st b)
     (auto split: bind_splits if_splits
           dest!: newHalfEdge_bounds listAppend_bounds edgeops_bounds)

lemma sealWithSinglePolygon_bounds:
  "sealWithSinglePolygon st seam = Some st' \<Longrightarrow> m_bounds st' = m_bounds st"
  by (auto simp: sealWithSinglePolygon_def split: bind_splits if_splits
           dest!: sealWithSinglePolygon_loop_bounds addFace_bounds)

lemma sealWithMultiplePolygons_more_bounds:
  "sealWithMultiplePolygons_more G pl st b lv es = Some (st', b', lv', es') \<Longrightarrow>
   m_bounds st' = m_bounds st"
proof (induction es arbitrary: st b lv)
  case Nil
  then show ?case by simp
next
  case (Cons e es)
  obtain x y z where pl: "pl = (x, y, z)" by (cases pl) auto
  from Cons.prems show ?case unfolding pl
    by (auto split: bind_splits if_splits
             dest!: newHalfEdge_bounds listAppend_bounds edgeops_bounds Cons.IH[unfolded pl])
qed

lemma sealWithMultiplePolygons_close_bounds:
  "sealWithMultiplePolygons_close st seam b lv rest = Some (st', b', seam') \<Longrightarrow>
   m_bounds st' = m_bounds st"
  by (auto simp: sealWithMultiplePolygons_close_def Let_def split: bind_splits if_splits
           dest!: newHalfEdge_bounds listAppend_bounds newEdge_bounds)

lemma sealWithMultiplePolygons_loop_bounds:
  "sealWithMultiplePolygons_loop G st seam = Some st' \<Longrightarrow> m_bounds st' = m_bounds st"
proof (induction "length seam" arbitrary: st seam rule: less_induct)
  case less
  show ?case
  proof (cases "seam = []")
    case True
    with less.prems show ?thesis by (simp add: sealWithMultiplePolygons_loop.simps)
  next
    case False
    from less.prems[unfolded sealWithMultiplePolygons_loop.simps[of G st seam]] False
    obtain st6 p1 p2 p3 b2 v3 st7 b3 lv rest st8 b4 seam1 st9 where
      b6: "m_bounds st6 = m_bounds st"
      and more: "sealWithMultiplePolygons_more G (p1, p2, p3) st6 b2 v3 (tl (tl seam))
                  = Some (st7, b3, lv, rest)"
      and close: "sealWithMultiplePolygons_close st7 seam b3 lv rest = Some (st8, b4, seam1)"
      and face: "addFace st8 b4 = Some st9"
      and rec: "sealWithMultiplePolygons_loop G st9 seam1 = Some st'"
      and len: "3 \<le> length seam"
      apply (clarsimp simp: Let_def split: if_splits bind_splits)
      apply (drule newHalfEdge_bounds listAppend_bounds edgeops_bounds)+
      apply fastforce
      done
    from sealWithMultiplePolygons_more_length[OF more]
         sealWithMultiplePolygons_close_length[OF close] len
    have "length seam1 < length seam" by simp
    from less.hyps[OF this rec] sealWithMultiplePolygons_more_bounds[OF more]
         sealWithMultiplePolygons_close_bounds[OF close] addFace_bounds[OF face] b6
    show ?thesis by simp
  qed
qed

lemma sealWithMultiplePolygons_bounds:
  "sealWithMultiplePolygons G st seam = Some st' \<Longrightarrow> m_bounds st' = m_bounds st"
  by (auto simp: sealWithMultiplePolygons_def split: bind_splits if_splits
           dest!: sealWithSinglePolygon_bounds sealWithMultiplePolygons_loop_bounds)








lemma addSecondPoint_bounds:
  "addSecondPoint st p = Some st' \<Longrightarrow> m_bounds st' = m_bounds st"
  by (auto simp: addSecondPoint_def Let_def split: bind_splits if_splits prod.splits
           dest!: newHalfEdge_bounds newEdge_bounds prim_bounds)










section \<open>Empty seams and the branches that change nothing\<close>

lemma findFirstSplittingEdge_None:
  "findFirstSplittingEdge c st es = Some (None, st') \<Longrightarrow> st' = st"
  by (induction es) (auto split: bind_splits MatchResult.splits)

lemma push_back_nonempty: "push_back st seam e = Some seam' \<Longrightarrow> seam' \<noteq> []"
  by (auto simp: push_back_def split: option.splits bind_splits if_splits)

lemma createSeam_loop_nonempty:
  "createSeam_loop c fuel st first cur seam = Some (seam', st') \<Longrightarrow> seam' \<noteq> []"
proof (induction fuel arbitrary: st cur seam)
  case 0
  then show ?case by simp
next
  case (Suc n)
  from Suc.prems obtain seam1 where pb: "push_back st seam cur = Some seam1"
    by (auto split: bind_splits)
  from push_back_nonempty[OF pb] Suc.prems pb Suc.IH show ?case
    by (auto split: bind_splits if_splits)
qed

lemma createSeam_no_edge:
  "findFirstSplittingEdge c st (m_edges st) = Some (None, st1) \<Longrightarrow>
   createSeam c fuel st = Some ([], st)"
  by (frule findFirstSplittingEdge_None) (simp add: createSeam_def)

lemma createSeam_empty:
  "createSeam c fuel st = Some ([], st') \<Longrightarrow>
   st' = st \<and> findFirstSplittingEdge c st (m_edges st) = Some (None, st)"
  by (auto simp: createSeam_def split: bind_splits option.splits
           dest: findFirstSplittingEdge_None createSeam_loop_nonempty)

lemma split_short_seam: "length seam < 3 \<Longrightarrow> split fuel st seam = None"
  by (simp add: split_def)










lemma addFirstPoint_bounds: "addFirstPoint st p = Some st' \<Longrightarrow> m_bounds st' = m_bounds st"
  by (auto simp: addFirstPoint_def newVertex_def Let_def split: if_splits)

lemma exact_mergeWith_inside: "exact_bboxContains bb q \<Longrightarrow> exact_mergeWith bb q = bb"
  by (cases q; cases "bb_min bb"; cases "bb_max bb") auto

section \<open>The vertex of an incorporated point\<close>

text \<open>
  Weaving and the rebuilding of a polygon write no position and delete no vertex, apart
  from the vertex they create.
\<close>

lemma position_upd [simp]:
  "position (st\<lparr>halfEdgeHeap := hh\<rparr>) = position st"
  "position (st\<lparr>edgeHeap := eh\<rparr>) = position st"
  "position (st\<lparr>faceHeap := fh\<rparr>) = position st"
  "position (st\<lparr>m_vertices := vs\<rparr>) = position st"
  "position (st\<lparr>m_edges := es\<rparr>) = position st"
  "position (st\<lparr>m_faces := fs\<rparr>) = position st"
  "position (st\<lparr>m_bounds := bb\<rparr>) = position st"
  "position (st\<lparr>nextId := n\<rparr>) = position st"
  "position (st\<lparr>callbackTrace := tr\<rparr>) = position st"
  by (simp_all add: position_def fun_eq_iff)



lemma invokeCallback_verts [simp]:
  "m_vertices (invokeCallback ev st) = m_vertices st"
  "position (invokeCallback ev st) = position st"
  by (simp_all add: invokeCallback_def)







lemma reverseLinks_verts:
  "reverseLinks st hs = Some st' \<Longrightarrow> m_vertices st' = m_vertices st \<and> position st' = position st"
proof (induction hs arbitrary: st)
  case Nil then show ?case by simp
next
  case (Cons h hs)
  from Cons.prems obtain hr where
    "reverseLinks (st\<lparr>halfEdgeHeap := (halfEdgeHeap st)(h \<mapsto>
                  hr\<lparr>h_next := h_previous hr, h_previous := h_next hr\<rparr>)\<rparr>) hs = Some st'"
    by (auto simp: Let_def split: bind_splits)
  from Cons.IH[OF this] show ?case by simp
qed

lemma flipFace_verts:
  "flipFace st f = Some st' \<Longrightarrow> m_vertices st' = m_vertices st \<and> position st' = position st"
  by (auto simp: flipFace_def split: bind_splits dest!: reverseLinks_verts)



















section \<open>Insertion into an edge\<close>

text \<open>
  C5.  The extension of an edge by a collinear point always moves the second vertex.  On
  the edge from (0,0,0) to (1,0,0), the collinear point (-1,0,0) lies beyond the first
  vertex: the edge becomes the one from (0,0,0) to (-1,0,0), whose segment does not hold
  the former endpoint (1,0,0).
\<close>

theorem addPointToEdge_loses_endpoint:
  "edge edgePolyhedron
   \<and> vertexPositions edgePolyhedron = Some [(0, 0, 0), (1, 0, 0)]
   \<and> linearlyDependent exactGeometry (0, 0, 0) (1, 0, 0) (- 1, 0, 0)
   \<and> (\<exists>st'. addThirdPoint exactGeometry edgePolyhedron (- 1, 0, 0) = Some (True, st')
          \<and> vertexPositions st' = Some [(0, 0, 0), (- 1, 0, 0)])
   \<and> (\<exists>st'. addPoint exactGeometry 20 edgePolyhedron (- 1, 0, 0) = Some st'
          \<and> vertexPositions st' = Some [(0, 0, 0), (- 1, 0, 0)])
   \<and> \<not> containedWithinSegment exactGeometry (1, 0, 0) (0, 0, 0) (- 1, 0, 0)"
  by (simp add: run_simps del: One_nat_def cong: run_congs)

section \<open>What an insertion reports\<close>




section \<open>The bounding box after an insertion\<close>

text \<open>
  C4.  On a polygon or polyhedron \<^verbatim>\<open>addPoint\<close> merges the point into the bounds only when
  \<^verbatim>\<open>addFurtherPoint\<close> has returned true; in point and in edge state it merges it whatever
  happened.  On the edge from (0,0,0) to (10,0,0), with a collinearity test of tolerance
  100, the point (5,1,0) counts as collinear and as contained within the segment:
  \<^verbatim>\<open>addThirdPoint\<close> returns false and leaves the polyhedron as it was, and \<^verbatim>\<open>addPoint\<close> still
  grows the bounds from (10,0,0) to (10,1,0).
\<close>

theorem addPoint_noop_grows_bounds:
  "\<exists>st. addPoints (tolerantGeometry 100) 20 emptyPolyhedron [(0, 0, 0), (10, 0, 0)] = Some st
      \<and> edge st
      \<and> vertexPositions st = Some [(0, 0, 0), (10, 0, 0)]
      \<and> m_bounds st = \<lparr>bb_min = (0, 0, 0), bb_max = (10, 0, 0)\<rparr>
      \<and> linearlyDependent (tolerantGeometry 100) (0, 0, 0) (10, 0, 0) (5, 1, 0)
      \<and> containedWithinSegment (tolerantGeometry 100) (5, 1, 0) (0, 0, 0) (10, 0, 0)
      \<and> addThirdPoint (tolerantGeometry 100) st (5, 1, 0) = Some (False, st)
      \<and> addPoint (tolerantGeometry 100) 20 st (5, 1, 0)
          = Some (st\<lparr>m_bounds := \<lparr>bb_min = (0, 0, 0), bb_max = (10, 1, 0)\<rparr>\<rparr>)"
  by (simp add: run_simps tolerantGeometry_def tolerant_linearlyDependent_def
           del: One_nat_def cong: run_congs)


section \<open>Empty seams\<close>

lemma removeVertex_empty_seam:
  "findFirstSplittingEdge (SplitByConnectivityCriterion fuel v) st (m_edges st) = Some (None, st1)
   \<Longrightarrow> removeVertex G fuel st v = None"
  by (auto simp: removeVertex_def createSeam_no_edge split_short_seam split: bind_splits)

text \<open>
  C6, as stated, fails for \<^verbatim>\<open>removeVertex\<close>: it has no guard for the empty seam and hands
  it to \<^verbatim>\<open>split\<close>, whose assertion \<^verbatim>\<open>seam.size() >= 3\<close> fails.  Removing the only vertex
  of a polyhedron in point state is such a call.
\<close>

theorem removeVertex_fails_on_empty_seam:
  "vertexPositions pointPolyhedron = Some [(0, 0, 0)]
   \<and> findVertexByPosition pointPolyhedron (0, 0, 0) = Some (Some 0)
   \<and> createSeam (SplitByConnectivityCriterion 20 0) 20 pointPolyhedron
       = Some ([], pointPolyhedron)
   \<and> removeVertex exactGeometry 20 pointPolyhedron 0 = None"
  by (simp add: run_simps del: One_nat_def cong: run_congs)

text \<open>
  C6, amended.  When no edge discriminates, \<^verbatim>\<open>createSeam\<close> returns the empty seam and leaves
  the polyhedron as it was, and an empty seam arises in no other way.  On a
  polyhedron that does not contain the point, \<^verbatim>\<open>addFurtherPointToPolyhedron\<close> then returns
  false and changes nothing.  \<^verbatim>\<open>removeVertex\<close> fails instead, as \<^verbatim>\<open>split\<close> does on every seam
  of fewer than three edges.
\<close>

theorem empty_seam_guarded_by_addPoint_only:
  "(findFirstSplittingEdge c st (m_edges st) = Some (None, st1) \<longrightarrow>
      createSeam c fuel st = Some ([], st))
   \<and> (createSeam c fuel st = Some ([], st') \<longrightarrow>
      st' = st \<and> findFirstSplittingEdge c st (m_edges st) = Some (None, st))
   \<and> (polyhedron st \<and> contains G st p = Some False
      \<and> findFirstSplittingEdge (SplitByVisibilityCriterion G p) st (m_edges st) = Some (None, st1)
      \<longrightarrow> addFurtherPointToPolyhedron G fuel st p = Some (False, st))
   \<and> (findFirstSplittingEdge (SplitByConnectivityCriterion fuel v) st (m_edges st)
        = Some (None, st1) \<longrightarrow> removeVertex G fuel st v = None)
   \<and> (length seam < 3 \<longrightarrow> split fuel st seam = None)"
  by (auto simp: createSeam_no_edge addFurtherPointToPolyhedron_def split_short_seam
           dest: createSeam_empty removeVertex_empty_seam)

theorem empty_seam_guarded_by_addPoint_only_witness:
  "findFirstSplittingEdge (SplitByConnectivityCriterion 20 0) pointPolyhedron
      (m_edges pointPolyhedron) = Some (None, pointPolyhedron)
   \<and> createSeam (SplitByConnectivityCriterion 20 0) 20 pointPolyhedron
       = Some ([], pointPolyhedron)
   \<and> removeVertex exactGeometry 20 pointPolyhedron 0 = None
   \<and> polyhedron tetrahedron
   \<and> contains aboveEverywhere tetrahedron (5, 5, 5) = Some False
   \<and> findFirstSplittingEdge (SplitByVisibilityCriterion aboveEverywhere (5, 5, 5)) tetrahedron
        (m_edges tetrahedron) = Some (None, tetrahedron)
   \<and> addFurtherPointToPolyhedron aboveEverywhere 20 tetrahedron (5, 5, 5)
       = Some (False, tetrahedron)
   \<and> split 20 pointPolyhedron [] = None"
proof -
  have a: "findFirstSplittingEdge (SplitByConnectivityCriterion 20 0) pointPolyhedron
      (m_edges pointPolyhedron) = Some (None, pointPolyhedron)"
    by (simp add: pointPolyhedron_def)
  have b: "polyhedron tetrahedron"
    and c: "contains aboveEverywhere tetrahedron (5, 5, 5) = Some False"
    and d: "findFirstSplittingEdge (SplitByVisibilityCriterion aboveEverywhere (5, 5, 5))
        tetrahedron (m_edges tetrahedron) = Some (None, tetrahedron)"
    by (simp_all add: run_simps aboveEverywhere_def del: One_nat_def cong: run_congs)
  note t1 = empty_seam_guarded_by_addPoint_only
    [of "SplitByConnectivityCriterion 20 0" pointPolyhedron pointPolyhedron 20
        pointPolyhedron exactGeometry "(0, 0, 0)" 0 "[]"]
  note t2 = empty_seam_guarded_by_addPoint_only
    [of "SplitByVisibilityCriterion aboveEverywhere (5, 5, 5)" tetrahedron tetrahedron 20
        tetrahedron aboveEverywhere "(5, 5, 5)" 0 "[]"]
  from t1 a have e: "createSeam (SplitByConnectivityCriterion 20 0) 20 pointPolyhedron
       = Some ([], pointPolyhedron)" by blast
  from t1 a have f: "removeVertex exactGeometry 20 pointPolyhedron 0 = None" by blast
  from t2 b c d have g: "addFurtherPointToPolyhedron aboveEverywhere 20 tetrahedron (5, 5, 5)
       = Some (False, tetrahedron)" by blast
  from t1 have h: "split 20 pointPolyhedron [] = None" by simp
  show ?thesis by (intro conjI a e f b c d g h)
qed

section \<open>Sealing a seam of three edges\<close>

text \<open>
  One turn of the loop of \<^verbatim>\<open>sealWithSinglePolygon\<close> creates one half-edge, appends it to the
  boundary and makes it the second half-edge of the seam edge.
\<close>

lemma newHalfEdge_effect:
  assumes "newHalfEdge st v = Some (h, st1)"
  shows "h = nextId st" "nextId st1 = Suc (nextId st)"
    "halfEdgeHeap st1 = (halfEdgeHeap st)(h \<mapsto>
        \<lparr>h_origin = v, h_edge = None, h_face = None, h_next = h, h_previous = h\<rparr>)"
    "edgeHeap st1 = edgeHeap st" "faceHeap st1 = faceHeap st" "m_faces st1 = m_faces st"
    "callbackTrace st1 = callbackTrace st" "m_edges st1 = m_edges st"
  using assms by (auto simp: newHalfEdge_def Let_def setLeaving_def split: bind_splits)

lemma setSecondEdge_effect:
  assumes "setSecondEdge st e h = Some st1"
  shows "\<exists>ed r. edgeHeap st e = Some ed \<and> e_second ed = None
           \<and> halfEdgeHeap st h = Some r \<and> h_edge r = None
           \<and> edgeHeap st1 = (edgeHeap st)(e \<mapsto> ed\<lparr>e_second := Some h\<rparr>)
           \<and> halfEdgeHeap st1 = (halfEdgeHeap st)(h \<mapsto> r\<lparr>h_edge := Some e\<rparr>)"
    "nextId st1 = nextId st" "faceHeap st1 = faceHeap st" "m_faces st1 = m_faces st"
    "callbackTrace st1 = callbackTrace st" "m_edges st1 = m_edges st"
  using assms by (auto simp: setSecondEdge_def setEdge_def split: bind_splits if_splits)

lemma listAppend_effect:
  assumes "listAppend st b h = Some (st1, b1)"
  shows "nextId st1 = nextId st" "edgeHeap st1 = edgeHeap st" "faceHeap st1 = faceHeap st"
    "m_faces st1 = m_faces st" "callbackTrace st1 = callbackTrace st" "m_edges st1 = m_edges st"
  using assms
  by (auto simp: listAppend_def Let_def setNext_def setPrevious_def split: bind_splits option.splits)

lemma listAppend_first:
  assumes "listAppend st b h = Some (st1, b1)" "l_head b = None"
  shows "st1 = st" "l_head b1 = Some h" "l_size b1 = 1"
  using assms by (auto simp: listAppend_def)

lemma listAppend_more:
  assumes "listAppend st b h = Some (st1, b1)" "l_head b = Some front"
    "halfEdgeHeap st front = Some fr" "h_previous fr = back" "halfEdgeHeap st back = Some br"
    "halfEdgeHeap st h = Some hr" "h \<noteq> front" "h \<noteq> back"
  shows "l_head b1 = Some front" "l_size b1 = Suc (l_size b)"
    "halfEdgeHeap st1 h = Some (hr\<lparr>h_previous := back, h_next := front\<rparr>)"
    "back \<noteq> front \<Longrightarrow> halfEdgeHeap st1 back = Some (br\<lparr>h_next := h\<rparr>)"
    "back \<noteq> front \<Longrightarrow> halfEdgeHeap st1 front = Some (fr\<lparr>h_previous := h\<rparr>)"
    "back = front \<Longrightarrow> halfEdgeHeap st1 front = Some (fr\<lparr>h_next := h, h_previous := h\<rparr>)"
    "\<And>x. x \<noteq> h \<Longrightarrow> x \<noteq> front \<Longrightarrow> x \<noteq> back \<Longrightarrow> halfEdgeHeap st1 x = halfEdgeHeap st x"
  using assms
  by (auto simp: listAppend_def Let_def setNext_def setPrevious_def split: bind_splits option.splits)

lemma seal_step:
  assumes fs: "fullySpecified st e = Some False"
    and nh: "newHalfEdge st v = Some (h, st1)"
    and la: "listAppend st1 b h = Some (st2, b1)"
    and se: "setSecondEdge st2 e h = Some st3"
    and ring: "ring st b n k" and nid: "nextId st = n + k"
  shows "h = n + k" "nextId st3 = n + Suc k" "ring st3 b1 n (Suc k)"
    "\<forall>x<n. halfEdgeHeap st3 x = halfEdgeHeap st x"
    "\<forall>x<n + k. map_option ownFields (halfEdgeHeap st3 x) = map_option ownFields (halfEdgeHeap st x)"
    "\<exists>r. halfEdgeHeap st3 h = Some r \<and> ownFields r = (v, Some e, None)"
    "\<exists>ed. edgeHeap st e = Some ed \<and> e_second ed = None
          \<and> edgeHeap st3 = (edgeHeap st)(e \<mapsto> ed\<lparr>e_second := Some h\<rparr>)"
    "faceHeap st3 = faceHeap st" "m_faces st3 = m_faces st"
    "callbackTrace st3 = callbackTrace st" "m_edges st3 = m_edges st"
proof -
  note e1 = newHalfEdge_effect[OF nh]
  note e2 = listAppend_effect[OF la]
  note e3 = setSecondEdge_effect[OF se]
  from e1 nid show h: "h = n + k" by simp
  from e1 e2 e3 nid show "nextId st3 = n + Suc k" by simp
  from e1 e2 e3 show "faceHeap st3 = faceHeap st" "m_faces st3 = m_faces st"
    "callbackTrace st3 = callbackTrace st" "m_edges st3 = m_edges st" by simp_all
  from e3(1) e2 e1 show "\<exists>ed. edgeHeap st e = Some ed \<and> e_second ed = None
          \<and> edgeHeap st3 = (edgeHeap st)(e \<mapsto> ed\<lparr>e_second := Some h\<rparr>)"
    by auto
  let ?new = "\<lparr>h_origin = v, h_edge = None, h_face = None, h_next = h, h_previous = h\<rparr>"
  have h1: "halfEdgeHeap st1 h = Some ?new" using e1 by simp
  have all4: "ring st3 b1 n (Suc k)
       \<and> (\<forall>x<n. halfEdgeHeap st3 x = halfEdgeHeap st x)
       \<and> (\<forall>x<n + k. map_option ownFields (halfEdgeHeap st3 x) = map_option ownFields (halfEdgeHeap st x))
       \<and> (\<exists>r. halfEdgeHeap st3 h = Some r \<and> ownFields r = (v, Some e, None))"
  proof (cases "k = 0")
      case True
      with ring have hd: "l_head b = None" by (simp add: ring_def)
      note f = listAppend_first[OF la hd]
      from f e1 e3(1) h True
      have heap3: "halfEdgeHeap st3 = (halfEdgeHeap st)(h \<mapsto> ?new\<lparr>h_edge := Some e\<rparr>)"
        by auto
      from heap3 f h True have A: "ring st3 b1 n (Suc k)" by (simp add: ring_def)
      from heap3 h have B: "\<forall>x<n. halfEdgeHeap st3 x = halfEdgeHeap st x" by simp
      from heap3 h have C: "\<forall>x<n + k. map_option ownFields (halfEdgeHeap st3 x)
           = map_option ownFields (halfEdgeHeap st x)" by simp
      from heap3 have D: "\<exists>r. halfEdgeHeap st3 h = Some r \<and> ownFields r = (v, Some e, None)"
        by (simp add: ownFields_def)
      show ?thesis by (intro conjI A B C D)
    next
      case False
      with ring obtain fr where hd: "l_head b = Some n" and sz: "l_size b = k"
        and fr: "halfEdgeHeap st n = Some fr" and pr: "h_previous fr = n + (k - 1)"
        and nx: "\<forall>i<k. \<exists>r. halfEdgeHeap st (n + i) = Some r
                 \<and> h_next r = (if Suc i = k then n else n + Suc i)"
        by (auto simp: ring_def)
      from nx False obtain br where br: "halfEdgeHeap st (n + (k - 1)) = Some br"
        by (metis diff_less gr0I zero_less_one)
      from False h have ne: "h \<noteq> n" "h \<noteq> n + (k - 1)" by simp_all
      from fr br e1 ne have fr1: "halfEdgeHeap st1 n = Some fr"
        and br1: "halfEdgeHeap st1 (n + (k - 1)) = Some br" by simp_all
      note m = listAppend_more[OF la hd fr1 pr br1 h1 ne]
      have old: "\<And>x. x \<noteq> h \<Longrightarrow> halfEdgeHeap st1 x = halfEdgeHeap st x" using e1 by simp
      from e3(1) obtain r2 where r2: "halfEdgeHeap st2 h = Some r2"
        and heap3: "halfEdgeHeap st3 = (halfEdgeHeap st2)(h \<mapsto> r2\<lparr>h_edge := Some e\<rparr>)"
        by auto
      from m(3) r2 have r2eq: "r2 = ?new\<lparr>h_previous := n + (k - 1), h_next := n\<rparr>" by simp
      have D: "\<exists>r. halfEdgeHeap st3 h = Some r \<and> ownFields r = (v, Some e, None)"
        using heap3 r2eq by (simp add: ownFields_def)
      have B: "\<forall>x<n. halfEdgeHeap st3 x = halfEdgeHeap st x"
        using heap3 m(7) old h by simp
      have C: "\<forall>x<n + k. map_option ownFields (halfEdgeHeap st3 x)
           = map_option ownFields (halfEdgeHeap st x)"
      proof (intro allI impI)
        fix x assume x: "x < n + k"
        then have xh: "x \<noteq> h" using h by simp
        show "map_option ownFields (halfEdgeHeap st3 x) = map_option ownFields (halfEdgeHeap st x)"
        proof (cases "x = n \<or> x = n + (k - 1)")
          case True
          then show ?thesis using heap3 xh m(4,5,6) fr br
            by (cases "n + (k - 1) = n") (auto simp: ownFields_def)
        next
          case False
          then show ?thesis using heap3 xh m(7)[of x] old[of x] by simp
        qed
      qed
      have H1: "l_head b1 = Some n" by (rule m(1))
      have H0: "l_size b1 = Suc k" using m(2) sz by simp
      have H2: "\<forall>i<Suc k. \<exists>r. halfEdgeHeap st3 (n + i) = Some r \<and>
                        h_next r = (if Suc i = Suc k then n else n + Suc i)"
      proof (intro allI impI)
        fix i assume i: "i < Suc k"
        show "\<exists>r. halfEdgeHeap st3 (n + i) = Some r \<and>
                h_next r = (if Suc i = Suc k then n else n + Suc i)"
        proof (cases "i = k")
          case True
          then show ?thesis using heap3 r2eq h by simp
        next
          case ik: False
          with i have ilt: "i < k" by simp
          from nx ilt obtain r where r: "halfEdgeHeap st (n + i) = Some r"
            and rn: "h_next r = (if Suc i = k then n else n + Suc i)" by blast
          have nih: "n + i \<noteq> h" using h ilt by simp
          show ?thesis
          proof (cases "Suc i = k")
            case True
            then have ib: "n + i = n + (k - 1)" by simp
            show ?thesis
            proof (cases "n + (k - 1) = n")
              case True
              with m(6) heap3 nih ib ik h show ?thesis by auto
            next
              case False
              with m(4) heap3 nih ib ik h show ?thesis by auto
            qed
          next
            case False
            with ilt have nb: "n + i \<noteq> n + (k - 1)" by simp
            show ?thesis
            proof (cases "i = 0")
              case True
              from nb True have "n + (k - 1) \<noteq> n" by simp
              from m(5)[OF this] heap3 nih True fr r rn False ik show ?thesis by auto
            next
              case i0: False
              then have "n + i \<noteq> n" by simp
              from m(7)[OF nih this nb] old[OF nih] heap3 nih r rn False ik show ?thesis by auto
            qed
          qed
        qed
      qed
      have H3: "\<exists>r. halfEdgeHeap st3 n = Some r \<and> h_previous r = n + (Suc k - 1)"
      proof (cases "n + (k - 1) = n")
        case True
        with m(6) heap3 ne h show ?thesis by auto
      next
        case False
        with m(5) heap3 ne h show ?thesis by auto
      qed
      have A: "ring st3 b1 n (Suc k)"
        unfolding ring_def using H0 H1 H2 H3 by simp
      show ?thesis by (intro conjI A B C D)
  qed
  from all4 show "ring st3 b1 n (Suc k)"
       "\<forall>x<n. halfEdgeHeap st3 x = halfEdgeHeap st x"
       "\<forall>x<n + k. map_option ownFields (halfEdgeHeap st3 x) = map_option ownFields (halfEdgeHeap st x)"
       "\<exists>r. halfEdgeHeap st3 h = Some r \<and> ownFields r = (v, Some e, None)"
    by blast+
qed


lemma secondVertex_stable:
  assumes "edgeHeap st' e = edgeHeap st e" "\<forall>x<n. halfEdgeHeap st' x = halfEdgeHeap st x"
    "allocatedBelow st n e" "edgeHeap st e = Some ed" "e_second ed = None"
  shows "secondVertex st' e = secondVertex st e" "allocatedBelow st' n e"
  using assms
  by (auto simp: secondVertex_def allocatedBelow_def split: option.splits bind_splits)

lemma seal_loop:
  assumes "sealWithSinglePolygon_loop st b es = Some (st', b')"
    and "ring st b n k" "nextId st = n + k"
  shows "ring st' b' n (k + length es) \<and> nextId st' = n + k + length es
    \<and> (\<forall>x<n. halfEdgeHeap st' x = halfEdgeHeap st x)
    \<and> (\<forall>x<n + k. map_option ownFields (halfEdgeHeap st' x)
                   = map_option ownFields (halfEdgeHeap st x))
    \<and> (\<forall>i<length es. \<exists>r ed v. halfEdgeHeap st' (n + k + i) = Some r
          \<and> ownFields r = (v, Some (es ! i), None)
          \<and> edgeHeap st (es ! i) = Some ed \<and> e_second ed = None
          \<and> edgeHeap st' (es ! i) = Some (ed\<lparr>e_second := Some (n + k + i)\<rparr>)
          \<and> (allocatedBelow st n (es ! i) \<longrightarrow> secondVertex st (es ! i) = Some v))
    \<and> (\<forall>e. e \<notin> set es \<longrightarrow> edgeHeap st' e = edgeHeap st e)
    \<and> faceHeap st' = faceHeap st \<and> m_faces st' = m_faces st
    \<and> callbackTrace st' = callbackTrace st \<and> m_edges st' = m_edges st"
  using assms
proof (induction es arbitrary: st b k)
  case Nil
  then show ?case by simp
next
  case (Cons e es)
  from Cons.prems(1) obtain v h st1 st2 b1 st3 where
    fs: "fullySpecified st e = Some False"
    and sv: "secondVertex st e = Some v"
    and nh: "newHalfEdge st v = Some (h, st1)"
    and la: "listAppend st1 b h = Some (st2, b1)"
    and se: "setSecondEdge st2 e h = Some st3"
    and rec: "sealWithSinglePolygon_loop st3 b1 es = Some (st', b')"
    by (auto split: bind_splits if_splits)
  note S = seal_step[OF fs nh la se Cons.prems(2) Cons.prems(3)]
  from S(2) have n3: "nextId st3 = n + Suc k" .
  note IH = Cons.IH[OF rec S(3) n3]
  from S(7) obtain ed where ed: "edgeHeap st e = Some ed" "e_second ed = None"
    and eh3: "edgeHeap st3 = (edgeHeap st)(e \<mapsto> ed\<lparr>e_second := Some h\<rparr>)" by blast
  from S(6) obtain r0 where r0: "halfEdgeHeap st3 h = Some r0" "ownFields r0 = (v, Some e, None)"
    by blast
  have c1: "ring st' b' n (k + length (e # es))" using IH by simp
  have c2: "nextId st' = n + k + length (e # es)" using IH by simp
  have c3: "\<forall>x<n. halfEdgeHeap st' x = halfEdgeHeap st x" using IH S(4) by simp
  have c4: "\<forall>x<n + k. map_option ownFields (halfEdgeHeap st' x)
                   = map_option ownFields (halfEdgeHeap st x)"
    using IH S(5) by simp
  have notin: "e \<notin> set es"
  proof
    assume "e \<in> set es"
    then obtain j where j: "j < length es" "es ! j = e" by (auto simp: in_set_conv_nth)
    with IH obtain ed' where "edgeHeap st3 e = Some ed'" "e_second ed' = None" by metis
    with eh3 show False by auto
  qed
  have c6: "\<forall>e'. e' \<notin> set (e # es) \<longrightarrow> edgeHeap st' e' = edgeHeap st e'"
    using IH eh3 by simp
  have c7: "faceHeap st' = faceHeap st \<and> m_faces st' = m_faces st
    \<and> callbackTrace st' = callbackTrace st \<and> m_edges st' = m_edges st"
    using IH S(8-11) by simp
  have c5: "\<forall>i<length (e # es). \<exists>r ed v. halfEdgeHeap st' (n + k + i) = Some r
          \<and> ownFields r = (v, Some ((e # es) ! i), None)
          \<and> edgeHeap st ((e # es) ! i) = Some ed \<and> e_second ed = None
          \<and> edgeHeap st' ((e # es) ! i) = Some (ed\<lparr>e_second := Some (n + k + i)\<rparr>)
          \<and> (allocatedBelow st n ((e # es) ! i) \<longrightarrow> secondVertex st ((e # es) ! i) = Some v)"
  proof (intro allI impI)
    fix i assume i: "i < length (e # es)"
    show "\<exists>r ed v. halfEdgeHeap st' (n + k + i) = Some r
          \<and> ownFields r = (v, Some ((e # es) ! i), None)
          \<and> edgeHeap st ((e # es) ! i) = Some ed \<and> e_second ed = None
          \<and> edgeHeap st' ((e # es) ! i) = Some (ed\<lparr>e_second := Some (n + k + i)\<rparr>)
          \<and> (allocatedBelow st n ((e # es) ! i) \<longrightarrow> secondVertex st ((e # es) ! i) = Some v)"
    proof (cases i)
      case 0
      from IH have "map_option ownFields (halfEdgeHeap st' h) = map_option ownFields (halfEdgeHeap st3 h)"
        using S(1) by simp
      with r0 obtain r where r: "halfEdgeHeap st' h = Some r" "ownFields r = (v, Some e, None)"
        by (cases "halfEdgeHeap st' h") auto
      from IH notin eh3 have "edgeHeap st' e = Some (ed\<lparr>e_second := Some h\<rparr>)" by simp
      with r ed sv S(1) 0 show ?thesis by simp
    next
      case (Suc j)
      with i have j: "j < length es" by simp
      from IH j obtain r ed' v' where
        a: "halfEdgeHeap st' (n + Suc k + j) = Some r" "ownFields r = (v', Some (es ! j), None)"
        and b: "edgeHeap st3 (es ! j) = Some ed'" "e_second ed' = None"
        and c: "edgeHeap st' (es ! j) = Some (ed'\<lparr>e_second := Some (n + Suc k + j)\<rparr>)"
        and d: "allocatedBelow st3 n (es ! j) \<longrightarrow> secondVertex st3 (es ! j) = Some v'"
        by metis
      from b eh3 have ne: "es ! j \<noteq> e" by auto
      with eh3 have same: "edgeHeap st3 (es ! j) = edgeHeap st (es ! j)" by simp
      have "allocatedBelow st n (es ! j) \<longrightarrow> secondVertex st (es ! j) = Some v'"
      proof
        assume al: "allocatedBelow st n (es ! j)"
        from secondVertex_stable[OF same S(4) al] b same d show "secondVertex st (es ! j) = Some v'"
          by simp
      qed
      with a b c same Suc show ?thesis by simp
    qed
  qed
  show ?case by (intro conjI c1 c2 c3 c4 c5 c6 c7[THEN conjunct1] c7[THEN conjunct2, THEN conjunct1]
      c7[THEN conjunct2, THEN conjunct2, THEN conjunct1] c7[THEN conjunct2, THEN conjunct2, THEN conjunct2])
qed


lemma ring_cycle:
  "ring st b n k \<Longrightarrow> i + m \<le> k \<Longrightarrow> cycle st m (n + i) = Some (map (\<lambda>j. n + j) [i..<i + m])"
proof (induction m arbitrary: i)
  case 0
  then show ?case by simp
next
  case (Suc m)
  from Suc.prems have ik: "i < k" and k0: "k \<noteq> 0" by simp_all
  with Suc.prems(1) obtain r where r: "halfEdgeHeap st (n + i) = Some r"
    and nx: "h_next r = (if Suc i = k then n else n + Suc i)"
    by (auto simp: ring_def)
  show ?case
  proof (cases m)
    case 0
    with r show ?thesis by simp
  next
    case (Suc m')
    with Suc.prems have "Suc i \<noteq> k" by simp
    with nx have nx': "h_next r = n + Suc i" by simp
    from Suc.prems have "Suc i + m \<le> k" by simp
    from Suc.IH[OF Suc.prems(1) this] r nx' show ?thesis
      by (simp add: upt_rec[of i])
  qed
qed

lemma ring_listItems:
  "ring st b n k \<Longrightarrow> listItems st b = Some (map (\<lambda>j. n + j) [0..<k])"
  using ring_cycle[of st b n k 0 k]
  by (cases "k = 0") (auto simp: listItems_def ring_def)

lemma setFaces_other:
  "setFaces st f hs = Some st' \<Longrightarrow> h \<notin> set hs \<Longrightarrow> halfEdgeHeap st' h = halfEdgeHeap st h"
  by (induction hs arbitrary: st) (auto simp: setFace_def split: bind_splits)

lemma setFaces_effect:
  "setFaces st f hs = Some st' \<Longrightarrow>
   (\<forall>x. map_option keptFields (halfEdgeHeap st' x) = map_option keptFields (halfEdgeHeap st x))
   \<and> (\<forall>x\<in>set hs. \<exists>r. halfEdgeHeap st' x = Some r \<and> h_face r = f)
   \<and> edgeHeap st' = edgeHeap st \<and> faceHeap st' = faceHeap st \<and> m_faces st' = m_faces st
   \<and> callbackTrace st' = callbackTrace st \<and> nextId st' = nextId st"
proof (induction hs arbitrary: st)
  case Nil
  then show ?case by simp
next
  case (Cons h hs)
  from Cons.prems obtain hr where hr: "halfEdgeHeap st h = Some hr"
    and rec: "setFaces (st\<lparr>halfEdgeHeap := (halfEdgeHeap st)(h \<mapsto> hr\<lparr>h_face := f\<rparr>)\<rparr>) f hs = Some st'"
    by (auto simp: setFace_def split: bind_splits)
  note IH = Cons.IH[OF rec]
  have k: "\<forall>x. map_option keptFields (halfEdgeHeap st' x) = map_option keptFields (halfEdgeHeap st x)"
  proof
    fix x
    from IH have "map_option keptFields (halfEdgeHeap st' x)
        = map_option keptFields
            (halfEdgeHeap (st\<lparr>halfEdgeHeap := (halfEdgeHeap st)(h \<mapsto> hr\<lparr>h_face := f\<rparr>)\<rparr>) x)"
      by blast
    also have "\<dots> = map_option keptFields (halfEdgeHeap st x)"
      using hr by (simp add: keptFields_def)
    finally show "map_option keptFields (halfEdgeHeap st' x) = map_option keptFields (halfEdgeHeap st x)" .
  qed
  have hface: "\<exists>r. halfEdgeHeap st' h = Some r \<and> h_face r = f"
  proof (cases "h \<in> set hs")
    case True
    with IH show ?thesis by blast
  next
    case False
    from setFaces_other[OF rec False] show ?thesis by simp
  qed
  from IH k hface show ?case by simp
qed

lemma ring_kept:
  assumes "\<forall>x. map_option keptFields (halfEdgeHeap st' x) = map_option keptFields (halfEdgeHeap st x)"
    and "ring st b n k"
  shows "ring st' b n k"
proof -
  have *: "\<And>x r. halfEdgeHeap st x = Some r \<Longrightarrow>
      \<exists>r'. halfEdgeHeap st' x = Some r' \<and> h_next r' = h_next r \<and> h_previous r' = h_previous r"
  proof -
    fix x r assume "halfEdgeHeap st x = Some r"
    with assms(1)[rule_format, of x] show
      "\<exists>r'. halfEdgeHeap st' x = Some r' \<and> h_next r' = h_next r \<and> h_previous r' = h_previous r"
      by (cases "halfEdgeHeap st' x") (auto simp: keptFields_def)
  qed
  show ?thesis
  proof (cases "k = 0")
    case True
    with assms(2) show ?thesis by (simp add: ring_def)
  next
    case False
    with assms(2) have hd: "l_head b = Some n" "l_size b = k"
      and nx: "\<forall>i<k. \<exists>r. halfEdgeHeap st (n + i) = Some r
                 \<and> h_next r = (if Suc i = k then n else n + Suc i)"
      and pv: "\<exists>r. halfEdgeHeap st n = Some r \<and> h_previous r = n + (k - 1)"
      by (auto simp: ring_def)
    have nx': "\<forall>i<k. \<exists>r. halfEdgeHeap st' (n + i) = Some r
                 \<and> h_next r = (if Suc i = k then n else n + Suc i)"
    proof (intro allI impI)
      fix i assume "i < k"
      with nx obtain r where "halfEdgeHeap st (n + i) = Some r"
        "h_next r = (if Suc i = k then n else n + Suc i)" by blast
      with *[of "n + i" r] show "\<exists>r. halfEdgeHeap st' (n + i) = Some r
                 \<and> h_next r = (if Suc i = k then n else n + Suc i)" by auto
    qed
    from pv * have pv': "\<exists>r. halfEdgeHeap st' n = Some r \<and> h_previous r = n + (k - 1)"
      by fastforce
    from hd nx' pv' False show ?thesis by (simp add: ring_def)
  qed
qed


lemma addFace_effect:
  assumes "addFace st b = Some st'"
  shows "\<exists>hs st2. listItems st b = Some hs \<and> 3 \<le> l_size b
      \<and> setFaces (st\<lparr>faceHeap := (faceHeap st)(nextId st \<mapsto> \<lparr>f_boundary = b\<rparr>),
                      nextId := nextId st + 1\<rparr>) (Some (nextId st)) hs = Some st2
      \<and> st' = (invokeCallback (FaceWasCreated (nextId st)) st2)
                 \<lparr>m_faces := m_faces st2 @ [nextId st]\<rparr>"
  using assms
  by (auto simp: addFace_def newFace_def Let_def invokeCallback_def split: bind_splits if_splits)

lemma sealWithSinglePolygon_spec:
  assumes seal: "sealWithSinglePolygon st seam = Some st'"
  defines "n \<equiv> nextId st" and "k \<equiv> length seam"
  shows "m_faces st' = m_faces st @ [n + k]"
    and "faceHeap st' = (faceHeap st)(n + k \<mapsto> \<lparr>f_boundary = \<lparr>l_head = Some n, l_size = k\<rparr>\<rparr>)"
    and "map fst (callbackTrace st') = map fst (callbackTrace st) @ [FaceWasCreated (n + k)]"
    and "boundaryHalfEdges st' (n + k) = Some (map (\<lambda>j. n + j) [0..<k])"
    and "\<forall>i<k. \<exists>r ed v. halfEdgeHeap st' (n + i) = Some r
          \<and> h_origin r = v \<and> h_edge r = Some (seam ! i) \<and> h_face r = Some (n + k)
          \<and> edgeHeap st (seam ! i) = Some ed \<and> e_second ed = None
          \<and> edgeHeap st' (seam ! i) = Some (ed\<lparr>e_second := Some (n + i)\<rparr>)
          \<and> (allocatedBelow st n (seam ! i) \<longrightarrow> secondVertex st (seam ! i) = Some v)"
proof -
  from seal obtain st1 b where len: "3 \<le> k"
    and loop: "sealWithSinglePolygon_loop st emptyList seam = Some (st1, b)"
    and face: "addFace st1 b = Some st'"
    by (auto simp: sealWithSinglePolygon_def k_def split: bind_splits if_splits)
  have r0: "ring st emptyList n 0" by (simp add: ring_def emptyList_def)
  have n0: "nextId st = n + 0" by (simp add: n_def)
  note L = seal_loop[OF loop r0 n0, simplified, folded k_def]
  from L have ring1: "ring st1 b n k" and n1: "nextId st1 = n + k" by simp_all
  from addFace_effect[OF face] n1 obtain hs st2 where
    items: "listItems st1 b = Some hs"
    and sf: "setFaces (st1\<lparr>faceHeap := (faceHeap st1)(n + k \<mapsto> \<lparr>f_boundary = b\<rparr>),
                      nextId := n + k + 1\<rparr>) (Some (n + k)) hs = Some st2"
    and st': "st' = (invokeCallback (FaceWasCreated (n + k)) st2)\<lparr>m_faces := m_faces st2 @ [n + k]\<rparr>"
    by auto
  from ring_listItems[OF ring1] items have hs: "hs = map (\<lambda>j. n + j) [0..<k]" by simp
  note F = setFaces_effect[OF sf]
  from ring1 len have b: "b = \<lparr>l_head = Some n, l_size = k\<rparr>"
    by (cases b) (auto simp: ring_def)
  from F L st' show "m_faces st' = m_faces st @ [n + k]"
    by (simp add: invokeCallback_def)
  from F L st' b show "faceHeap st' = (faceHeap st)(n + k \<mapsto> \<lparr>f_boundary = \<lparr>l_head = Some n, l_size = k\<rparr>\<rparr>)"
    by (simp add: invokeCallback_def)
  from F L st' show "map fst (callbackTrace st') = map fst (callbackTrace st) @ [FaceWasCreated (n + k)]"
    by (simp add: invokeCallback_def)
  have kept: "\<forall>x. map_option keptFields (halfEdgeHeap st' x) = map_option keptFields (halfEdgeHeap st1 x)"
    using F st' by (simp add: invokeCallback_def)
  from ring_kept[OF kept ring1] have ring': "ring st' b n k" .
  from F st' b have "faceHeap st' (n + k) = Some \<lparr>f_boundary = b\<rparr>"
    by (simp add: invokeCallback_def)
  with ring_listItems[OF ring'] show "boundaryHalfEdges st' (n + k) = Some (map (\<lambda>j. n + j) [0..<k])"
    by (simp add: boundaryHalfEdges_def)
  show "\<forall>i<k. \<exists>r ed v. halfEdgeHeap st' (n + i) = Some r
          \<and> h_origin r = v \<and> h_edge r = Some (seam ! i) \<and> h_face r = Some (n + k)
          \<and> edgeHeap st (seam ! i) = Some ed \<and> e_second ed = None
          \<and> edgeHeap st' (seam ! i) = Some (ed\<lparr>e_second := Some (n + i)\<rparr>)
          \<and> (allocatedBelow st n (seam ! i) \<longrightarrow> secondVertex st (seam ! i) = Some v)"
  proof (intro allI impI)
    fix i assume i: "i < k"
    with L obtain r1 ed v where r1: "halfEdgeHeap st1 (n + i) = Some r1"
      and own: "ownFields r1 = (v, Some (seam ! i), None)"
      and ed: "edgeHeap st (seam ! i) = Some ed" "e_second ed = None"
      and ed1: "edgeHeap st1 (seam ! i) = Some (ed\<lparr>e_second := Some (n + i)\<rparr>)"
      and sv: "allocatedBelow st n (seam ! i) \<longrightarrow> secondVertex st (seam ! i) = Some v"
      by metis
    from i hs have "n + i \<in> set hs" by auto
    with F st' obtain r where r: "halfEdgeHeap st' (n + i) = Some r" and rf: "h_face r = Some (n + k)"
      by (auto simp: invokeCallback_def)
    from kept[rule_format, of "n + i"] r r1 own
    have "h_origin r = v \<and> h_edge r = Some (seam ! i)"
      by (simp add: keptFields_def ownFields_def)
    moreover from F st' ed1 have "edgeHeap st' (seam ! i) = Some (ed\<lparr>e_second := Some (n + i)\<rparr>)"
      by (simp add: invokeCallback_def)
    ultimately show "\<exists>r ed v. halfEdgeHeap st' (n + i) = Some r
          \<and> h_origin r = v \<and> h_edge r = Some (seam ! i) \<and> h_face r = Some (n + k)
          \<and> edgeHeap st (seam ! i) = Some ed \<and> e_second ed = None
          \<and> edgeHeap st' (seam ! i) = Some (ed\<lparr>e_second := Some (n + i)\<rparr>)
          \<and> (allocatedBelow st n (seam ! i) \<longrightarrow> secondVertex st (seam ! i) = Some v)"
      using r rf ed sv by blast
  qed
qed


text \<open>
  C9.  On a seam of exactly three edges \<^verbatim>\<open>sealWithMultiplePolygons\<close> is
  \<^verbatim>\<open>sealWithSinglePolygon\<close>.  When it returns, exactly one face has been appended and
  announced; its boundary consists of one new half-edge per seam edge, in the order of
  the seam, each originating at the second vertex that seam edge had before the call and
  each the second half-edge of that seam edge, which is now fully specified and has kept
  its first half-edge.
\<close>

theorem sealWithMultiplePolygons_three:
  assumes "length seam = 3"
  shows "sealWithMultiplePolygons G st seam = sealWithSinglePolygon st seam
     \<and> (\<forall>st'. sealWithMultiplePolygons G st seam = Some st'
            \<and> (\<forall>e\<in>set seam. allocatedBelow st (nextId st) e) \<longrightarrow>
         (\<exists>f hs. m_faces st' = m_faces st @ [f]
            \<and> (\<forall>g. g \<noteq> f \<longrightarrow> faceHeap st' g = faceHeap st g)
            \<and> map fst (callbackTrace st') = map fst (callbackTrace st) @ [FaceWasCreated f]
            \<and> boundaryHalfEdges st' f = Some hs \<and> length hs = length seam \<and> distinct hs
            \<and> (\<forall>i<length seam.
                 nextId st \<le> hs ! i
               \<and> map_option h_origin (halfEdgeHeap st' (hs ! i)) = secondVertex st (seam ! i)
               \<and> map_option h_face (halfEdgeHeap st' (hs ! i)) = Some (Some f)
               \<and> map_option h_edge (halfEdgeHeap st' (hs ! i)) = Some (Some (seam ! i))
               \<and> secondEdge st' (seam ! i) = Some (hs ! i)
               \<and> firstEdge st' (seam ! i) = firstEdge st (seam ! i)
               \<and> fullySpecified st (seam ! i) = Some False
               \<and> fullySpecified st' (seam ! i) = Some True)))"
proof (intro conjI allI impI)
  from assms show eq: "sealWithMultiplePolygons G st seam = sealWithSinglePolygon st seam"
    by (simp add: sealWithMultiplePolygons_def)
  fix st'
  assume a: "sealWithMultiplePolygons G st seam = Some st'
            \<and> (\<forall>e\<in>set seam. allocatedBelow st (nextId st) e)"
  with eq have seal: "sealWithSinglePolygon st seam = Some st'" by simp
  note S = sealWithSinglePolygon_spec[OF seal]
  let ?n = "nextId st" and ?k = "length seam"
  let ?f = "?n + ?k" and ?hs = "map (\<lambda>j. ?n + j) [0..<?k]"
  have per: "\<forall>i<length seam.
                 nextId st \<le> ?hs ! i
               \<and> map_option h_origin (halfEdgeHeap st' (?hs ! i)) = secondVertex st (seam ! i)
               \<and> map_option h_face (halfEdgeHeap st' (?hs ! i)) = Some (Some ?f)
               \<and> map_option h_edge (halfEdgeHeap st' (?hs ! i)) = Some (Some (seam ! i))
               \<and> secondEdge st' (seam ! i) = Some (?hs ! i)
               \<and> firstEdge st' (seam ! i) = firstEdge st (seam ! i)
               \<and> fullySpecified st (seam ! i) = Some False
               \<and> fullySpecified st' (seam ! i) = Some True"
  proof (intro allI impI)
    fix i assume i: "i < length seam"
    with a have al: "allocatedBelow st ?n (seam ! i)" by simp
    from S(5)[rule_format, OF i] al obtain r ed where
      "halfEdgeHeap st' (?n + i) = Some r" "h_edge r = Some (seam ! i)" "h_face r = Some ?f"
      "edgeHeap st (seam ! i) = Some ed" "e_second ed = None"
      "edgeHeap st' (seam ! i) = Some (ed\<lparr>e_second := Some (?n + i)\<rparr>)"
      "secondVertex st (seam ! i) = Some (h_origin r)"
      by auto
    with i show "nextId st \<le> ?hs ! i
               \<and> map_option h_origin (halfEdgeHeap st' (?hs ! i)) = secondVertex st (seam ! i)
               \<and> map_option h_face (halfEdgeHeap st' (?hs ! i)) = Some (Some ?f)
               \<and> map_option h_edge (halfEdgeHeap st' (?hs ! i)) = Some (Some (seam ! i))
               \<and> secondEdge st' (seam ! i) = Some (?hs ! i)
               \<and> firstEdge st' (seam ! i) = firstEdge st (seam ! i)
               \<and> fullySpecified st (seam ! i) = Some False
               \<and> fullySpecified st' (seam ! i) = Some True"
      by (simp add: secondEdge_def firstEdge_def fullySpecified_def)
  qed
  have d: "distinct ?hs" by (simp add: distinct_map inj_on_def)
  from S(1-4) per d
  show "\<exists>f hs. m_faces st' = m_faces st @ [f]
            \<and> (\<forall>g. g \<noteq> f \<longrightarrow> faceHeap st' g = faceHeap st g)
            \<and> map fst (callbackTrace st') = map fst (callbackTrace st) @ [FaceWasCreated f]
            \<and> boundaryHalfEdges st' f = Some hs \<and> length hs = length seam \<and> distinct hs
            \<and> (\<forall>i<length seam.
                 nextId st \<le> hs ! i
               \<and> map_option h_origin (halfEdgeHeap st' (hs ! i)) = secondVertex st (seam ! i)
               \<and> map_option h_face (halfEdgeHeap st' (hs ! i)) = Some (Some f)
               \<and> map_option h_edge (halfEdgeHeap st' (hs ! i)) = Some (Some (seam ! i))
               \<and> secondEdge st' (seam ! i) = Some (hs ! i)
               \<and> firstEdge st' (seam ! i) = firstEdge st (seam ! i)
               \<and> fullySpecified st (seam ! i) = Some False
               \<and> fullySpecified st' (seam ! i) = Some True)"
    apply (rule_tac x = "?f" in exI)
    apply (rule_tac x = "?hs" in exI)
    apply simp
    done
qed

theorem sealWithMultiplePolygons_three_witness:
  "length [7, 13, 10 :: eid] = 3
   \<and> allocatedBelow trianglePolygon (nextId trianglePolygon) 7
   \<and> allocatedBelow trianglePolygon (nextId trianglePolygon) 13
   \<and> allocatedBelow trianglePolygon (nextId trianglePolygon) 10
   \<and> (\<exists>st'. sealWithMultiplePolygons exactGeometry trianglePolygon [7, 13, 10] = Some st'
        \<and> sealWithSinglePolygon trianglePolygon [7, 13, 10] = Some st'
        \<and> (\<exists>f hs. m_faces st' = m_faces trianglePolygon @ [f]
            \<and> boundaryHalfEdges st' f = Some hs \<and> length hs = 3
            \<and> map_option h_origin (halfEdgeHeap st' (hs ! 0)) = secondVertex trianglePolygon 7
            \<and> map_option h_origin (halfEdgeHeap st' (hs ! 1)) = secondVertex trianglePolygon 13
            \<and> map_option h_origin (halfEdgeHeap st' (hs ! 2)) = secondVertex trianglePolygon 10
            \<and> fullySpecified st' 7 = Some True
            \<and> fullySpecified st' 13 = Some True
            \<and> fullySpecified st' 10 = Some True))
   \<and> secondVertex trianglePolygon 7 = Some 8
   \<and> secondVertex trianglePolygon 13 = Some 5
   \<and> secondVertex trianglePolygon 10 = Some 11"
proof -
  have len: "length [7, 13, 10 :: eid] = 3" by simp
  have al3: "allocatedBelow trianglePolygon (nextId trianglePolygon) 7"
    "allocatedBelow trianglePolygon (nextId trianglePolygon) 13"
    "allocatedBelow trianglePolygon (nextId trianglePolygon) 10"
    by (simp_all add: allocatedBelow_def trianglePolygon_def)
  then have al: "\<forall>e\<in>set [7, 13, 10]. allocatedBelow trianglePolygon (nextId trianglePolygon) e"
    by simp
  have sv: "secondVertex trianglePolygon 7 = Some 8" "secondVertex trianglePolygon 13 = Some 5"
    "secondVertex trianglePolygon 10 = Some 11"
    by (simp_all add: secondVertex_def trianglePolygon_def)
  obtain st' where run: "sealWithMultiplePolygons exactGeometry trianglePolygon [7, 13, 10] = Some st'"
    by (simp add: run_simps del: One_nat_def cong: run_congs)
  note T = sealWithMultiplePolygons_three[OF len, of exactGeometry trianglePolygon]
  from T run have single: "sealWithSinglePolygon trianglePolygon [7, 13, 10] = Some st'" by simp
  from T run al obtain f hs where
    r: "m_faces st' = m_faces trianglePolygon @ [f]" "boundaryHalfEdges st' f = Some hs"
      "length hs = 3"
    and per: "\<forall>i<3. map_option h_origin (halfEdgeHeap st' (hs ! i))
                      = secondVertex trianglePolygon ([7, 13, 10] ! i)
                  \<and> fullySpecified st' ([7, 13, 10] ! i) = Some True"
    by (auto simp del: set_simps)
  from per[rule_format, of 0] per[rule_format, of 1] per[rule_format, of 2]
  have p: "map_option h_origin (halfEdgeHeap st' (hs ! 0)) = secondVertex trianglePolygon 7"
      "map_option h_origin (halfEdgeHeap st' (hs ! 1)) = secondVertex trianglePolygon 13"
      "map_option h_origin (halfEdgeHeap st' (hs ! 2)) = secondVertex trianglePolygon 10"
      "fullySpecified st' 7 = Some True" "fullySpecified st' 13 = Some True"
      "fullySpecified st' 10 = Some True"
    by simp_all
  from run single r p have E: "\<exists>st'. sealWithMultiplePolygons exactGeometry trianglePolygon [7, 13, 10] = Some st'
        \<and> sealWithSinglePolygon trianglePolygon [7, 13, 10] = Some st'
        \<and> (\<exists>f hs. m_faces st' = m_faces trianglePolygon @ [f]
            \<and> boundaryHalfEdges st' f = Some hs \<and> length hs = 3
            \<and> map_option h_origin (halfEdgeHeap st' (hs ! 0)) = secondVertex trianglePolygon 7
            \<and> map_option h_origin (halfEdgeHeap st' (hs ! 1)) = secondVertex trianglePolygon 13
            \<and> map_option h_origin (halfEdgeHeap st' (hs ! 2)) = secondVertex trianglePolygon 10
            \<and> fullySpecified st' 7 = Some True
            \<and> fullySpecified st' 13 = Some True
            \<and> fullySpecified st' 10 = Some True)"
    by blast
  show ?thesis by (intro conjI len al3 E sv)
qed

section \<open>The hull after an edge has lost an end point\<close>

text \<open>
  C1.  The points (0,0,0), (1,0,0), (-1,0,0), (0,1,0), (0,0,1) are inserted in this
  order.  The second insertion incorporates (1,0,0); the third, collinear and beyond the
  first vertex, moves the second vertex from (1,0,0) to (-1,0,0).  The polyhedron reached
  in the end has the vertices (-1,0,0), (0,1,0), (0,0,0), (0,0,1): it contains each of
  them, but the point (1,0,0) lies strictly above its face through (0,0,1), (0,0,0),
  (0,1,0).  It is not the convex hull of the points incorporated so far.
\<close>

theorem hull_loses_inserted_point:
  "\<exists>st2 st. addPoints exactGeometry 20 emptyPolyhedron [(0, 0, 0), (1, 0, 0)] = Some st2
      \<and> vertexPositions st2 = Some [(0, 0, 0), (1, 0, 0)]
      \<and> addPoints exactGeometry 20 st2 [(- 1, 0, 0), (0, 1, 0), (0, 0, 1)] = Some st
      \<and> polyhedron st
      \<and> vertexPositions st = Some [(- 1, 0, 0), (0, 1, 0), (0, 0, 0), (0, 0, 1)]
      \<and> contains exactGeometry st (- 1, 0, 0) = Some True
      \<and> contains exactGeometry st (0, 1, 0) = Some True
      \<and> contains exactGeometry st (0, 0, 0) = Some True
      \<and> contains exactGeometry st (0, 0, 1) = Some True
      \<and> m_faces st = [14, 19, 23, 28]
      \<and> getVertexPositions st 28 = Some [(0, 0, 1), (0, 0, 0), (0, 1, 0)]
      \<and> pointStatus exactGeometry st 28 (1, 0, 0) = Some PSAbove
      \<and> contains exactGeometry st (1, 0, 0) = Some False"
  by (simp add: run_simps del: One_nat_def cong: run_congs)

end
